theory Spec2Isabelle
  imports Complex_Main "HOL-Library.Log_Nat" "HOL-Library.Multiset"
begin

section \<open>JavaScript Numbers\<close>

text \<open>
  Every number the route handlers compute with is an ECMAScript Number, an IEEE 754
  binary64 value. A finite Number is modelled by the rational it denotes; \<open>NaN\<close> and the two
  infinities are separate constructors. The two zeros are identified: the modelled code
  only divides by counts and lengths (never by \<open>-0\<close>), and \<open>JSON.stringify\<close> prints both
  zeros as \<open>0\<close>.
\<close>

datatype jsnum = Fin rat | NaN | PosInf | NegInf

text \<open>\<open>ilog2 x\<close> is \<open>\<lfloor>log\<^sub>2 x\<rfloor>\<close> for a positive rational \<open>x\<close>.\<close>

definition ilog2 :: "rat \<Rightarrow> int" where
  "ilog2 x = (if 1 \<le> x then bitlen \<lfloor>x\<rfloor> - 1 else - bitlen (\<lceil>1 / x\<rceil> - 1))"

text \<open>Rounding to the nearest integer, ties to the even one.\<close>

definition rne :: "rat \<Rightarrow> int" where
  "rne x = (let f = \<lfloor>x\<rfloor>; r = x - of_int f in
     if r < 1 / 2 then f else if 1 / 2 < r then f + 1 else if even f then f else f + 1)"

text \<open>
  \<open>fl x\<close> is the Number that the exact result \<open>x\<close> of an arithmetic operation is rounded to:
  53 significant bits, round to nearest, ties to even, exponents from \<open>-1074\<close> (subnormal
  numbers) and overflow to an infinity from \<open>2\<^sup>1\<^sup>0\<^sup>2\<^sup>4\<close> on.
\<close>

definition fl :: "rat \<Rightarrow> jsnum" where
  "fl x = (if x = 0 then Fin 0 else
     let e = max (ilog2 \<bar>x\<bar> - 52) (- 1074);
         y = of_int (rne (\<bar>x\<bar> / 2 powi e)) * 2 powi e
     in if 2 ^ 1024 \<le> y then (if 0 < x then PosInf else NegInf)
        else Fin (sgn x * y))"

definition js_int :: "int \<Rightarrow> jsnum" where
  "js_int i = fl (of_int i)"

definition js_nat :: "nat \<Rightarrow> jsnum" where
  "js_nat n = fl (of_nat n)"

fun js_neg :: "jsnum \<Rightarrow> jsnum" where
  "js_neg (Fin a) = Fin (- a)"
| "js_neg NaN = NaN"
| "js_neg PosInf = NegInf"
| "js_neg NegInf = PosInf"

fun js_add :: "jsnum \<Rightarrow> jsnum \<Rightarrow> jsnum" where
  "js_add (Fin a) (Fin b) = fl (a + b)"
| "js_add NaN _ = NaN"
| "js_add _ NaN = NaN"
| "js_add PosInf NegInf = NaN"
| "js_add NegInf PosInf = NaN"
| "js_add PosInf _ = PosInf"
| "js_add _ PosInf = PosInf"
| "js_add NegInf _ = NegInf"
| "js_add _ NegInf = NegInf"

definition js_sub :: "jsnum \<Rightarrow> jsnum \<Rightarrow> jsnum" where
  "js_sub a b = js_add a (js_neg b)"

text \<open>The sign of a Number that is not \<open>NaN\<close>: \<open>-1\<close>, \<open>0\<close> or \<open>1\<close>.\<close>

fun js_sign :: "jsnum \<Rightarrow> int" where
  "js_sign (Fin a) = sgn \<lfloor>sgn a\<rfloor>"
| "js_sign NaN = 0"
| "js_sign PosInf = 1"
| "js_sign NegInf = - 1"

fun js_mul :: "jsnum \<Rightarrow> jsnum \<Rightarrow> jsnum" where
  "js_mul (Fin a) (Fin b) = fl (a * b)"
| "js_mul NaN _ = NaN"
| "js_mul _ NaN = NaN"
| "js_mul a b =
     (if js_sign a * js_sign b = 0 then NaN
      else if 0 < js_sign a * js_sign b then PosInf else NegInf)"

fun js_div :: "jsnum \<Rightarrow> jsnum \<Rightarrow> jsnum" where
  "js_div (Fin a) (Fin b) =
     (if b = 0 then (if a = 0 then NaN else if 0 < a then PosInf else NegInf)
      else fl (a / b))"
| "js_div NaN _ = NaN"
| "js_div _ NaN = NaN"
| "js_div (Fin a) _ = Fin 0"
| "js_div PosInf (Fin b) = (if 0 \<le> b then PosInf else NegInf)"
| "js_div NegInf (Fin b) = (if 0 \<le> b then NegInf else PosInf)"
| "js_div _ _ = NaN"

text \<open>The relational operator \<open><\<close> on Numbers; every comparison with \<open>NaN\<close> is false.\<close>

fun js_less :: "jsnum \<Rightarrow> jsnum \<Rightarrow> bool" where
  "js_less (Fin a) (Fin b) = (a < b)"
| "js_less NaN _ = False"
| "js_less _ NaN = False"
| "js_less _ NegInf = False"
| "js_less PosInf _ = False"
| "js_less _ _ = True"

text \<open>
  \<open>Math.round\<close> returns the closest integer, the one nearer to \<open>+\<infinity>\<close> on a tie;
  \<open>Math.ceil\<close> the least integer not below its argument. Both are exact.
\<close>

fun Math_round :: "jsnum \<Rightarrow> jsnum" where
  "Math_round (Fin x) = Fin (of_int \<lfloor>x + 1 / 2\<rfloor>)"
| "Math_round v = v"

fun Math_ceil :: "jsnum \<Rightarrow> jsnum" where
  "Math_ceil (Fin x) = Fin (of_int \<lceil>x\<rceil>)"
| "Math_ceil v = v"

text \<open>
  \<open>Math.min(...xs)\<close> and \<open>Math.max(...xs)\<close>: \<open>+\<infinity>\<close> and \<open>-\<infinity>\<close> with no argument, \<open>NaN\<close> as soon
  as one argument is \<open>NaN\<close>.
\<close>

definition js_min2 :: "jsnum \<Rightarrow> jsnum \<Rightarrow> jsnum" where
  "js_min2 a b = (if a = NaN \<or> b = NaN then NaN else if js_less b a then b else a)"

definition js_max2 :: "jsnum \<Rightarrow> jsnum \<Rightarrow> jsnum" where
  "js_max2 a b = (if a = NaN \<or> b = NaN then NaN else if js_less a b then b else a)"

definition Math_min :: "jsnum list \<Rightarrow> jsnum" where
  "Math_min xs = foldl js_min2 PosInf xs"

definition Math_max :: "jsnum list \<Rightarrow> jsnum" where
  "Math_max xs = foldl js_max2 NegInf xs"

text \<open>Truthiness of a Number: \<open>0\<close> and \<open>NaN\<close> are falsy.\<close>

definition truthy_num :: "jsnum \<Rightarrow> bool" where
  "truthy_num v = (v \<noteq> Fin 0 \<and> v \<noteq> NaN)"

text \<open>\<open>ToNumber\<close> of a value that is a Number or \<open>null\<close> (\<open>None\<close>): \<open>null\<close> converts to \<open>0\<close>.\<close>

definition to_number :: "jsnum option \<Rightarrow> jsnum" where
  "to_number v = (case v of None \<Rightarrow> Fin 0 | Some x \<Rightarrow> x)"


section \<open>Result Shaper (routes/analytics.js, routes/aggregations.js)\<close>

text \<open>
  The rounding every handler applies to an average: \<open>Math.round(v * 100) / 100\<close>.
\<close>

definition round2 :: "jsnum \<Rightarrow> jsnum" where
  "round2 v = js_div (Math_round (js_mul v (Fin 100))) (Fin 100)"

text \<open>
  A bucket of the \<open>categories\<close> terms aggregation as the engine returns it. The value of an
  \<open>avg\<close>, \<open>min\<close> or \<open>max\<close> metric is a Number or \<open>null\<close>; \<open>doc_count\<close> and the value of
  \<open>value_count\<close> are counts.
\<close>

record category_bucket =
  bucket_key :: string
  doc_count :: nat
  avg_price_value :: "jsnum option"
  avg_rating_value :: "jsnum option"
  min_price_value :: "jsnum option"
  max_price_value :: "jsnum option"
  in_stock_count_value :: nat

text \<open>
  \<open>GET /api/analytics/categories\<close>: the object built for each bucket. The source's fields
  \<open>count\<close>, \<open>min\<close> and \<open>max\<close> are named \<open>doc_total\<close>, \<open>stats_min\<close> and \<open>stats_max\<close> here.
\<close>

record analytics_category =
  category :: string
  doc_total :: nat
  avg_price :: jsnum
  avg_rating :: jsnum
  in_stock_count :: nat
  in_stock_percentage :: jsnum

definition analytics_categories :: "category_bucket \<Rightarrow> analytics_category" where
  "analytics_categories bucket =
     \<lparr> category = bucket_key bucket,
       doc_total = doc_count bucket,
       avg_price = round2 (to_number (avg_price_value bucket)),
       avg_rating = round2 (to_number (avg_rating_value bucket)),
       in_stock_count = in_stock_count_value bucket,
       in_stock_percentage =
         Math_round (js_mul (js_div (js_nat (in_stock_count_value bucket))
                                    (js_nat (doc_count bucket))) (Fin 100)) \<rparr>"

text \<open>\<open>GET /api/aggregations/categories\<close>: the same object with the price bounds added.\<close>

record aggregations_category = analytics_category +
  min_price :: "jsnum option"
  max_price :: "jsnum option"

definition aggregations_categories :: "category_bucket \<Rightarrow> aggregations_category" where
  "aggregations_categories bucket =
     \<lparr> category = bucket_key bucket,
       doc_total = doc_count bucket,
       avg_price = round2 (to_number (avg_price_value bucket)),
       avg_rating = round2 (to_number (avg_rating_value bucket)),
       in_stock_count = in_stock_count_value bucket,
       in_stock_percentage =
         Math_round (js_mul (js_div (js_nat (in_stock_count_value bucket))
                                    (js_nat (doc_count bucket))) (Fin 100)),
       min_price = min_price_value bucket,
       max_price = max_price_value bucket \<rparr>"

text \<open>
  \<open>GET /api/analytics/overview\<close>: the aggregations of the response and the object the
  handler sends.
\<close>

record overview_aggs =
  total_products_value :: nat
  aggs_avg_price_value :: "jsnum option"
  aggs_min_price_value :: "jsnum option"
  aggs_max_price_value :: "jsnum option"
  aggs_avg_rating_value :: "jsnum option"
  aggs_in_stock_count_value :: nat
  aggs_out_of_stock_count_value :: nat

record price_stats =
  average :: jsnum
  stats_min :: "jsnum option"
  stats_max :: "jsnum option"

record stock_status =
  in_stock :: nat
  out_of_stock :: nat

record overview =
  total_products :: nat
  overview_price_stats :: price_stats
  average_rating :: jsnum
  overview_stock_status :: stock_status

definition analytics_overview :: "overview_aggs \<Rightarrow> overview" where
  "analytics_overview aggs =
     \<lparr> total_products = total_products_value aggs,
       overview_price_stats =
         \<lparr> average = round2 (to_number (aggs_avg_price_value aggs)),
           stats_min = aggs_min_price_value aggs,
           stats_max = aggs_max_price_value aggs \<rparr>,
       average_rating = round2 (to_number (aggs_avg_rating_value aggs)),
       overview_stock_status =
         \<lparr> in_stock = aggs_in_stock_count_value aggs,
           out_of_stock = aggs_out_of_stock_count_value aggs \<rparr> \<rparr>"

section \<open>Conversions between Strings and Numbers\<close>

text \<open>
  \<open>parseInt(string)\<close> without a radix: leading white space is skipped, a sign is read, a
  prefix \<open>0x\<close> selects radix 16, and the longest prefix of digits of the radix is the value;
  with no digit the result is \<open>NaN\<close>.
\<close>

definition is_white_space :: "char \<Rightarrow> bool" where
  "is_white_space c = (of_char c \<in> {9, 10, 11, 12, 13, 32 :: nat})"

definition digit_value :: "char \<Rightarrow> nat option" where
  "digit_value c =
     (let n = of_char c :: nat in
      if 48 \<le> n \<and> n \<le> 57 then Some (n - 48)
      else if 97 \<le> n \<and> n \<le> 122 then Some (n - 87)
      else if 65 \<le> n \<and> n \<le> 90 then Some (n - 55)
      else None)"

definition is_digit :: "nat \<Rightarrow> char \<Rightarrow> bool" where
  "is_digit R c = (case digit_value c of Some d \<Rightarrow> d < R | None \<Rightarrow> False)"

definition digits_value :: "nat \<Rightarrow> string \<Rightarrow> nat" where
  "digits_value R Z = foldl (\<lambda>acc c. acc * R + the (digit_value c)) 0 Z"

definition parseInt :: "string \<Rightarrow> jsnum" where
  "parseInt inputString =
     (let S = dropWhile is_white_space inputString;
          negative = (take 1 S = ''-'');
          S = (if take 1 S = ''-'' \<or> take 1 S = ''+'' then drop 1 S else S);
          hex = (take 2 S = ''0x'' \<or> take 2 S = ''0X'');
          R = (if hex then 16 else 10);
          S = (if hex then drop 2 S else S);
          Z = takeWhile (is_digit R) S
      in if Z = [] then NaN
         else if negative then js_neg (js_nat (digits_value R Z))
         else js_nat (digits_value R Z))"

text \<open>
  The conversion of a Number to a String (\<open>Number::toString\<close>, used by template literals
  and by \<open>parseInt\<close> on a Number argument) and of a String to a Number (\<open>Number(s)\<close>) belong
  to the language, not to the repository: the functions below take them as parameters
  \<open>ToString\<close> and \<open>ToNumber\<close>. The two instances defined here serve to evaluate the functions
  on concrete requests. \<open>int_toString\<close> agrees with \<open>Number::toString\<close> on \<open>NaN\<close>, the
  infinities and the integers of absolute value below \<open>10\<^sup>2\<^sup>1\<close> (for another Number it prints
  the integer part only); \<open>digits_toNumber\<close> agrees with \<open>Number(s)\<close> on the empty string and on
  strings of decimal digits (it reads every other string as \<open>NaN\<close>).
\<close>

definition digit_char :: "nat \<Rightarrow> char" where
  "digit_char d = ''0123456789'' ! d"

function decimal :: "nat \<Rightarrow> string" where
  "decimal n = (if n < 10 then [digit_char n] else decimal (n div 10) @ [digit_char (n mod 10)])"
  by pat_completeness auto
termination
  by (relation "measure (\<lambda>n. n)") auto

declare decimal.simps [simp del]

fun int_toString :: "jsnum \<Rightarrow> string" where
  "int_toString (Fin x) = (if x < 0 then ''-'' else []) @ decimal (nat \<lfloor>\<bar>x\<bar>\<rfloor>)"
| "int_toString NaN = ''NaN''"
| "int_toString PosInf = ''Infinity''"
| "int_toString NegInf = ''-Infinity''"

definition digits_toNumber :: "string \<Rightarrow> jsnum" where
  "digits_toNumber s =
     (if s = [] then Fin 0
      else if list_all (is_digit 10) s then js_nat (digits_value 10 s)
      else NaN)"

section \<open>Filter Clause Builder and Query Tree Compiler (routes/search.js)\<close>

text \<open>
  The \<open>filters\<close> object of the request body, with the types of the FilterSet: a field that
  the body does not carry is \<open>None\<close> (\<open>undefined\<close>).
\<close>

record filter_set =
  filters_category :: "string option"
  filters_priceMin :: "jsnum option"
  filters_priceMax :: "jsnum option"
  filters_rating :: "jsnum option"
  filters_inStock :: "bool option"
  filters_tags :: "string list option"

datatype jvalue = JString string | JNumber jsnum | JBoolean bool

text \<open>
  The three kinds of filter clause the handler builds: \<open>{term: {field: value}}\<close>,
  \<open>{range: {field: {gte, lte}}}\<close> with each bound optional, and \<open>{terms: {field: values}}\<close>.
\<close>

datatype filter_clause =
    Term string jvalue
  | Range string "jsnum option" "jsnum option"
  | Terms string "string list"

text \<open>\<open>Object.keys(filters).length\<close>.\<close>

definition keys_length :: "filter_set \<Rightarrow> nat" where
  "keys_length filters =
     length (filter (\<lambda>present. present)
       [filters_category filters \<noteq> None, filters_priceMin filters \<noteq> None,
        filters_priceMax filters \<noteq> None, filters_rating filters \<noteq> None,
        filters_inStock filters \<noteq> None, filters_tags filters \<noteq> None])"

text \<open>
  The five guarded \<open>filterQueries.push\<close> statements, one function each, in the order of
  the source. \<open>if (filters.category)\<close> and \<open>if (filters.rating)\<close> test truthiness, the price
  and stock guards compare with \<open>undefined\<close>.
\<close>

definition push_category :: "filter_set \<Rightarrow> filter_clause list \<Rightarrow> filter_clause list" where
  "push_category filters filterQueries =
     (case filters_category filters of
        Some c \<Rightarrow> if c \<noteq> [] then filterQueries @ [Term ''category'' (JString c)]
                  else filterQueries
      | None \<Rightarrow> filterQueries)"

definition push_price :: "filter_set \<Rightarrow> filter_clause list \<Rightarrow> filter_clause list" where
  "push_price filters filterQueries =
     (if filters_priceMin filters \<noteq> None \<or> filters_priceMax filters \<noteq> None
      then filterQueries @ [Range ''price'' (filters_priceMin filters) (filters_priceMax filters)]
      else filterQueries)"

definition push_rating :: "filter_set \<Rightarrow> filter_clause list \<Rightarrow> filter_clause list" where
  "push_rating filters filterQueries =
     (case filters_rating filters of
        Some r \<Rightarrow> if truthy_num r then filterQueries @ [Range ''rating'' (Some r) None]
                  else filterQueries
      | None \<Rightarrow> filterQueries)"

definition push_inStock :: "filter_set \<Rightarrow> filter_clause list \<Rightarrow> filter_clause list" where
  "push_inStock filters filterQueries =
     (case filters_inStock filters of
        Some b \<Rightarrow> filterQueries @ [Term ''inStock'' (JBoolean b)]
      | None \<Rightarrow> filterQueries)"

definition push_tags :: "filter_set \<Rightarrow> filter_clause list \<Rightarrow> filter_clause list" where
  "push_tags filters filterQueries =
     (case filters_tags filters of
        Some ts \<Rightarrow> if 0 < length ts then filterQueries @ [Terms ''tags'' ts]
                   else filterQueries
      | None \<Rightarrow> filterQueries)"

definition filterQueries :: "filter_set \<Rightarrow> filter_clause list" where
  "filterQueries filters =
     push_tags filters (push_inStock filters (push_rating filters
       (push_price filters (push_category filters []))))"

text \<open>
  The query clauses of the handler. \<open>query\<close>, the free text of the body, may be absent;
  the wildcard pattern is the template literal \<open>`*${query}*`\<close>, which prints an absent text
  as \<open>undefined\<close>.
\<close>

datatype query_clause =
    Multi_match "string option" "string list" string string
  | Match_phrase "string option" nat
  | Wildcard string bool
  | Fuzzy "string option" nat
  | Match_all
  | Bool "query_clause list" "filter_clause list"

definition primary_match :: "string \<Rightarrow> string option \<Rightarrow> query_clause" where
  "primary_match searchType query =
     (if searchType = ''multi_match'' then
        Multi_match query [''name^3'', ''description^2'', ''category'', ''tags'']
          ''best_fields'' ''AUTO''
      else if searchType = ''match_phrase'' then Match_phrase query 2
      else if searchType = ''wildcard'' then
        Wildcard (''*'' @ (case query of None \<Rightarrow> ''undefined'' | Some q \<Rightarrow> q) @ ''*'') True
      else if searchType = ''fuzzy'' then Fuzzy query 2
      else Match_all)"

text \<open>
  The body of \<open>POST /api/search\<close>; an absent field takes the default of the destructuring
  pattern.
\<close>

record search_body =
  body_query :: "string option"
  body_filters :: "filter_set option"
  body_page :: "jsnum option"
  body_size :: "jsnum option"
  body_sort :: "string option"
  body_order :: "string option"
  body_searchType :: "string option"

definition no_filters :: filter_set where
  "no_filters =
     \<lparr> filters_category = None, filters_priceMin = None, filters_priceMax = None,
       filters_rating = None, filters_inStock = None, filters_tags = None \<rparr>"

definition or_default :: "'a \<Rightarrow> 'a option \<Rightarrow> 'a" where
  "or_default d v = (case v of None \<Rightarrow> d | Some x \<Rightarrow> x)"

text \<open>The object passed to \<open>elasticsearchService.search\<close>.\<close>

record searchQuery =
  sq_query :: query_clause
  sq_from :: jsnum
  sq_size :: jsnum
  sq_sort :: "(string \<times> string) list"

definition search_query :: "(jsnum \<Rightarrow> string) \<Rightarrow> search_body \<Rightarrow> searchQuery" where
  "search_query ToString body =
     (let query = body_query body;
          filters = or_default no_filters (body_filters body);
          page = or_default (Fin 1) (body_page body);
          size = or_default (Fin 10) (body_size body);
          sort = or_default ''createdAt'' (body_sort body);
          order = or_default ''desc'' (body_order body);
          searchType = or_default ''multi_match'' (body_searchType body);
          from = js_mul (js_sub page (Fin 1)) size;
          primary = primary_match searchType query;
          wrapped =
            (if 0 < keys_length filters then
               (if 0 < length (filterQueries filters)
                then Bool [primary] (filterQueries filters) else primary)
             else primary)
      in \<lparr> sq_query = wrapped, sq_from = from, sq_size = parseInt (ToString size),
           sq_sort = [(sort, order)] \<rparr>)"

section \<open>Aggregation Spec Builder: price ranges (routes/aggregations.js)\<close>

text \<open>\<open>ranges.split(',')\<close>: the pieces between the commas, at least one piece.\<close>

fun split_comma :: "string \<Rightarrow> string list" where
  "split_comma [] = [[]]"
| "split_comma (c # cs) =
     (if c = CHR '','' then [] # split_comma cs
      else (case split_comma cs of [] \<Rightarrow> [[c]] | piece # pieces \<Rightarrow> (c # piece) # pieces))"

text \<open>An entry of \<open>priceRanges\<close>: \<open>{from, to, key}\<close>, where \<open>from\<close> or \<open>to\<close> may be missing.\<close>

record range_entry =
  range_from :: "jsnum option"
  range_to :: "jsnum option"
  range_key :: string

text \<open>
  The \<open>for\<close> loop over the indices of \<open>rangeValues\<close>, with \<open>priceRanges\<close> as the accumulator
  of the \<open>push\<close> calls.
\<close>

function priceRanges_loop ::
  "(jsnum \<Rightarrow> string) \<Rightarrow> jsnum list \<Rightarrow> nat \<Rightarrow> range_entry list \<Rightarrow> range_entry list" where
  "priceRanges_loop ToString rangeValues i priceRanges =
     (if i < length rangeValues then
        priceRanges_loop ToString rangeValues (Suc i)
          (priceRanges @
            [if i = 0 then
               \<lparr> range_from = None, range_to = Some (rangeValues ! i),
                 range_key = ''Under $'' @ ToString (rangeValues ! i) \<rparr>
             else
               \<lparr> range_from = Some (rangeValues ! (i - 1)), range_to = Some (rangeValues ! i),
                 range_key = ''$'' @ ToString (rangeValues ! (i - 1)) @ '' - $'' @
                             ToString (rangeValues ! i) \<rparr>])
      else priceRanges)"
  by pat_completeness auto
termination
  by (relation "measure (\<lambda>(ToString, rangeValues, i, priceRanges). length rangeValues - i)") auto

declare priceRanges_loop.simps [simp del]

text \<open>
  The loop followed by the last \<open>push\<close>, which reads \<open>rangeValues[rangeValues.length - 1]\<close>:
  \<open>undefined\<close> when the array is empty.
\<close>

definition priceRanges :: "(jsnum \<Rightarrow> string) \<Rightarrow> jsnum list \<Rightarrow> range_entry list" where
  "priceRanges ToString rangeValues =
     priceRanges_loop ToString rangeValues 0 [] @
       [if rangeValues = [] then
          \<lparr> range_from = None, range_to = None, range_key = ''Over $undefined'' \<rparr>
        else
          \<lparr> range_from = Some (last rangeValues), range_to = None,
            range_key = ''Over $'' @ ToString (last rangeValues) \<rparr>]"

text \<open>
  \<open>GET /api/aggregations/price-analysis\<close>: from the query parameter \<open>ranges\<close> (default
  \<open>'50,100,200,500'\<close>) to the \<open>ranges\<close> of the range aggregation.
\<close>

definition price_analysis_ranges ::
  "(string \<Rightarrow> jsnum) \<Rightarrow> (jsnum \<Rightarrow> string) \<Rightarrow> string option \<Rightarrow> range_entry list" where
  "price_analysis_ranges ToNumber ToString ranges =
     (let rangeValues = map ToNumber (split_comma (or_default ''50,100,200,500'' ranges))
      in priceRanges ToString rangeValues)"

section \<open>Benchmark Harness (routes/performance.js)\<close>

subsection \<open>Arrays of durations in a store\<close>

text \<open>
  \<open>calculatePercentile\<close> copies and sorts an array, and \<open>Array.prototype.sort\<close> sorts in
  place: the arrays of durations live in a store, addressed by natural numbers; the
  addresses below \<open>fresh\<close> are allocated. A duration is a difference of two readings of
  \<open>Date.now()\<close>, an integral number of milliseconds.
\<close>

record store =
  arrays :: "nat \<Rightarrow> int list"
  fresh :: nat

definition alloc :: "store \<Rightarrow> int list \<Rightarrow> nat \<times> store" where
  "alloc h xs = (fresh h, h\<lparr> arrays := (arrays h)(fresh h := xs), fresh := Suc (fresh h) \<rparr>)"

text \<open>\<open>arr.slice()\<close>: a new array with the elements of \<open>arr\<close>.\<close>

definition slice :: "store \<Rightarrow> nat \<Rightarrow> nat \<times> store" where
  "slice h arr = alloc h (arrays h arr)"

text \<open>
  \<open>arr.sort(comparefn)\<close> sorts the array in place and returns it. The order of the result
  is the one of a stable sort in which \<open>a\<close> comes after \<open>b\<close> when \<open>comparefn(a, b) > 0\<close>;
  insertion from the right end is such a sort.
\<close>

fun insert_by :: "('a \<Rightarrow> 'a \<Rightarrow> jsnum) \<Rightarrow> 'a \<Rightarrow> 'a list \<Rightarrow> 'a list" where
  "insert_by comparefn a [] = [a]"
| "insert_by comparefn a (b # bs) =
     (if js_less (Fin 0) (comparefn a b) then b # insert_by comparefn a bs else a # b # bs)"

definition sort_by :: "('a \<Rightarrow> 'a \<Rightarrow> jsnum) \<Rightarrow> 'a list \<Rightarrow> 'a list" where
  "sort_by comparefn xs = foldr (insert_by comparefn) xs []"

definition array_sort :: "(int \<Rightarrow> int \<Rightarrow> jsnum) \<Rightarrow> store \<Rightarrow> nat \<Rightarrow> nat \<times> store" where
  "array_sort comparefn h arr =
     (arr, h\<lparr> arrays := (arrays h)(arr := sort_by comparefn (arrays h arr)) \<rparr>)"

text \<open>
  \<open>arr[index]\<close> for a Number \<open>index\<close>: the element when the index is an integer within the
  array, \<open>undefined\<close> (\<open>None\<close>) otherwise.
\<close>

definition array_get :: "store \<Rightarrow> nat \<Rightarrow> jsnum \<Rightarrow> int option" where
  "array_get h arr index =
     (case index of
        Fin i \<Rightarrow>
          if of_int \<lfloor>i\<rfloor> = i \<and> 0 \<le> i \<and> i < of_nat (length (arrays h arr))
          then Some (arrays h arr ! nat \<lfloor>i\<rfloor>) else None
      | _ \<Rightarrow> None)"

definition calculatePercentile :: "store \<Rightarrow> nat \<Rightarrow> jsnum \<Rightarrow> int option \<times> store" where
  "calculatePercentile h arr percentile =
     (let (sliced, h1) = slice h arr;
          (sorted, h2) = array_sort (\<lambda>a b. js_sub (js_int a) (js_int b)) h1 sliced;
          index = js_sub (Math_ceil (js_mul (js_div percentile (Fin 100))
                                            (js_nat (length (arrays h2 sorted))))) (Fin 1)
      in (array_get h2 sorted index, h2))"

subsection \<open>The load test\<close>

text \<open>
  What the handler takes from the world: the clock and the three operations of the search
  engine client it may call. Each takes the state of the world \<open>'w\<close> and returns the next one.
  \<open>getDocument\<close> is given the query, of which the handler passes the \<open>id\<close>.

  An operation rejects with an error, of which the handler reads the message, or resolves
  with a value. Of the value the handler reads the length of its JSON text,
  \<open>hits.total.value\<close> when \<open>hits\<close> is there, and \<open>took\<close>. This reading throws a \<open>TypeError\<close>
  when the value is \<open>null\<close> (\<open>getDocument\<close> resolves with \<open>null\<close> for a document that is not
  in the index) or when its \<open>hits\<close> carry no \<open>total\<close>: the outcome \<open>Unreadable\<close>, with the
  message of that error.
\<close>

record response =
  response_length :: nat
  response_hits :: "nat option"
  response_took :: "nat option"

datatype outcome = Rejected string | Unreadable string | Resolved response

record ('q, 'w) world =
  Date_now :: "'w \<Rightarrow> int \<times> 'w"
  search :: "'q \<Rightarrow> 'w \<Rightarrow> outcome \<times> 'w"
  indexDocument :: "'q \<Rightarrow> 'w \<Rightarrow> outcome \<times> 'w"
  getDocument :: "'q \<Rightarrow> 'w \<Rightarrow> outcome \<times> 'w"

text \<open>The \<open>switch (testType)\<close> of the \<open>try\<close> block.\<close>

definition call_service ::
  "('q, 'w) world \<Rightarrow> string \<Rightarrow> 'q \<Rightarrow> 'w \<Rightarrow> outcome \<times> 'w" where
  "call_service env testType query w =
     (if testType = ''search'' then search env query w
      else if testType = ''index'' then indexDocument env query w
      else if testType = ''get'' then getDocument env query w
      else search env query w)"

text \<open>The object pushed to \<open>iterationResults\<close> for one call.\<close>

record 'q query_result =
  result_query :: 'q
  success :: bool
  duration :: int
  responseSize :: "nat option"
  hits :: "nat option"
  took :: "nat option"
  error :: "string option"

text \<open>
  The body of the inner loop: the clock is read, the call is made inside \<open>try\<close>, and the
  clock is read again in the \<open>try\<close> block once the operation has resolved and in the \<open>catch\<close>
  block after an error. When the reading of the resolved value throws, inside \<open>try\<close>, both
  blocks have read the clock, and the duration is taken from the second reading.
\<close>

definition run_query ::
  "('q, 'w) world \<Rightarrow> string \<Rightarrow> 'q \<Rightarrow> 'w \<Rightarrow> 'q query_result \<times> 'w" where
  "run_query env testType query w =
     (let (startTime, w1) = Date_now env w;
          (outcome, w2) = call_service env testType query w1
      in case outcome of
           Resolved response \<Rightarrow>
             (let (endTime, w3) = Date_now env w2
              in (\<lparr> result_query = query, success = True, duration = endTime - startTime,
                    responseSize = Some (response_length response),
                    hits = Some (case response_hits response of None \<Rightarrow> 0 | Some v \<Rightarrow> v),
                    took = Some (case response_took response of None \<Rightarrow> 0 | Some t \<Rightarrow> t),
                    error = None \<rparr>, w3))
         | Unreadable message \<Rightarrow>
             (let (endTime, w3) = Date_now env w2;
                  (endTime, w4) = Date_now env w3
              in (\<lparr> result_query = query, success = False, duration = endTime - startTime,
                    responseSize = None, hits = None, took = None,
                    error = Some message \<rparr>, w4))
         | Rejected message \<Rightarrow>
             (let (endTime, w3) = Date_now env w2
              in (\<lparr> result_query = query, success = False, duration = endTime - startTime,
                    responseSize = None, hits = None, took = None,
                    error = Some message \<rparr>, w3)))"

text \<open>\<open>for (const query of queries)\<close>, with \<open>iterationResults\<close> as the accumulator.\<close>

fun run_queries ::
  "('q, 'w) world \<Rightarrow> string \<Rightarrow> 'q list \<Rightarrow> 'q query_result list \<Rightarrow> 'w \<Rightarrow>
   'q query_result list \<times> 'w" where
  "run_queries env testType [] iterationResults w = (iterationResults, w)"
| "run_queries env testType (query # queries) iterationResults w =
     (let (r, w') = run_query env testType query w
      in run_queries env testType queries (iterationResults @ [r]) w')"

record 'q iteration_result =
  iteration :: nat
  queries :: "'q query_result list"

text \<open>\<open>for (let i = 0; i < iterations; i++)\<close>, with \<open>results.results\<close> as the accumulator.\<close>

function run_iterations ::
  "('q, 'w) world \<Rightarrow> string \<Rightarrow> 'q list \<Rightarrow> nat \<Rightarrow> nat \<Rightarrow> 'q iteration_result list \<Rightarrow> 'w \<Rightarrow>
   'q iteration_result list \<times> 'w" where
  "run_iterations env testType qs iterations i results w =
     (if i < iterations then
        (let (iterationResults, w') = run_queries env testType qs [] w
         in run_iterations env testType qs iterations (Suc i)
              (results @ [\<lparr> iteration = i + 1, queries = iterationResults \<rparr>]) w')
      else (results, w))"
  by pat_completeness auto
termination
  by (relation "measure (\<lambda>(env, testType, qs, iterations, i, results, w). iterations - i)") auto

declare run_iterations.simps [simp del]

text \<open>
  The statistics. Every pushed object has a \<open>duration\<close>, so the \<open>filter\<close> that drops
  \<open>undefined\<close> durations keeps them all. \<open>allDurations\<close> is a new array; the sum, the minimum
  and the maximum are read from it before the four calls of \<open>calculatePercentile\<close>, which
  run one after the other on the store.
\<close>

record statistics =
  totalQueries :: nat
  successfulQueries :: nat
  failedQueries :: int
  successRate :: jsnum
  averageDuration :: jsnum
  minDuration :: jsnum
  maxDuration :: jsnum
  p50Duration :: "int option"
  p90Duration :: "int option"
  p95Duration :: "int option"
  p99Duration :: "int option"

definition load_test_statistics :: "store \<Rightarrow> 'q iteration_result list \<Rightarrow> statistics \<times> store" where
  "load_test_statistics h results =
     (let (allDurations, h0) = alloc h (map duration (concat (map queries results)));
          successful = filter success (concat (map queries results));
          total = length (arrays h0 allDurations);
          average = js_div (foldl (\<lambda>a b. js_add a (js_int b)) (Fin 0) (arrays h0 allDurations))
                           (js_nat total);
          minimum = Math_min (map js_int (arrays h0 allDurations));
          maximum = Math_max (map js_int (arrays h0 allDurations));
          (p50, h1) = calculatePercentile h0 allDurations (Fin 50);
          (p90, h2) = calculatePercentile h1 allDurations (Fin 90);
          (p95, h3) = calculatePercentile h2 allDurations (Fin 95);
          (p99, h4) = calculatePercentile h3 allDurations (Fin 99)
      in (\<lparr> totalQueries = total,
            successfulQueries = length successful,
            failedQueries = int total - int (length successful),
            successRate = js_mul (js_div (js_nat (length successful)) (js_nat total)) (Fin 100),
            averageDuration = average,
            minDuration = minimum,
            maxDuration = maximum,
            p50Duration = p50, p90Duration = p90, p95Duration = p95, p99Duration = p99 \<rparr>,
          h4))"

text \<open>
  \<open>POST /api/performance/load-test\<close>. The body's fields take the defaults of the
  destructuring pattern; an empty \<open>queries\<close> is answered with status 400. The two
  timestamps of the response are kept as clock readings.
\<close>

record 'q load_test_body =
  body_queries :: "'q list option"
  body_iterations :: "nat option"
  body_concurrent :: "nat option"
  body_testType :: "string option"

record 'q load_test_results =
  results_testType :: string
  results_iterations :: nat
  results_concurrent :: nat
  results_totalQueries :: nat
  results_startTime :: int
  results_results :: "'q iteration_result list"
  results_endTime :: int
  results_statistics :: statistics

definition load_test ::
  "('q, 'w) world \<Rightarrow> 'q load_test_body \<Rightarrow> store \<Rightarrow> 'w \<Rightarrow>
   (nat \<times> string + 'q load_test_results) \<times> store \<times> 'w" where
  "load_test env body h w =
     (let qs = or_default [] (body_queries body);
          iterations = or_default 10 (body_iterations body);
          concurrent = or_default 5 (body_concurrent body);
          testType = or_default ''search'' (body_testType body)
      in if length qs = 0 then
           (Inl (400, ''Queries array is required and must not be empty''), h, w)
         else
           (let (startTime, w1) = Date_now env w;
                (results, w2) = run_iterations env testType qs iterations 0 [] w1;
                (statistics, h') = load_test_statistics h results;
                (endTime, w3) = Date_now env w2
            in (Inr \<lparr> results_testType = testType, results_iterations = iterations,
                      results_concurrent = concurrent, results_totalQueries = length qs,
                      results_startTime = startTime, results_results = results,
                      results_endTime = endTime, results_statistics = statistics \<rparr>,
                h', w3)))"

section \<open>Notions used to state the properties\<close>

text \<open>
  The number of present fields of a FilterSet, as the specification counts them: the
  category, the price range (either bound), the rating floor, the stock flag and the set of
  tags (present when it has a tag).
\<close>

definition present_fields :: "filter_set \<Rightarrow> nat" where
  "present_fields filters =
     length (filter (\<lambda>present. present)
       [filters_category filters \<noteq> None,
        filters_priceMin filters \<noteq> None \<or> filters_priceMax filters \<noteq> None,
        filters_rating filters \<noteq> None,
        filters_inStock filters \<noteq> None,
        filters_tags filters \<noteq> None \<and> filters_tags filters \<noteq> Some []])"

text \<open>
  The fields for which the handler builds a clause: as above, except that an empty category
  and a rating of \<open>0\<close> (or \<open>NaN\<close>) do not count.
\<close>

definition effective_fields :: "filter_set \<Rightarrow> nat" where
  "effective_fields filters =
     length (filter (\<lambda>present. present)
       [filters_category filters \<noteq> None \<and> filters_category filters \<noteq> Some [],
        filters_priceMin filters \<noteq> None \<or> filters_priceMax filters \<noteq> None,
        (case filters_rating filters of None \<Rightarrow> False | Some r \<Rightarrow> truthy_num r),
        filters_inStock filters \<noteq> None,
        filters_tags filters \<noteq> None \<and> filters_tags filters \<noteq> Some []])"

text \<open>
  Durations that the harness can measure: fewer than \<open>2\<^sup>3\<^sup>2\<close> of them (the bound on the
  length of an array) and at most \<open>2\<^sup>5\<^sup>2\<close> milliseconds in total, so that every sum and
  difference of durations is an integer that a Number holds exactly.
\<close>

definition safe_durations :: "int list \<Rightarrow> bool" where
  "safe_durations ds = (length ds < 2 ^ 32 \<and> sum_list (map abs ds) \<le> 2 ^ 52)"

text \<open>The calls of a run, in the order of the response: iteration by iteration.\<close>

definition all_calls :: "'q iteration_result list \<Rightarrow> 'q query_result list" where
  "all_calls results = concat (map queries results)"

text \<open>
  A bucket and an overview whose price average is the Number \<open>19.999\<close> and whose rating
  average is the Number \<open>4.449\<close>.
\<close>

definition rated_bucket :: category_bucket where
  "rated_bucket =
     \<lparr> bucket_key = ''Books'', doc_count = 3,
       avg_price_value = Some (fl (19999 / 1000)),
       avg_rating_value = Some (fl (4449 / 1000)),
       min_price_value = Some (Fin 10), max_price_value = Some (Fin 30),
       in_stock_count_value = 2 \<rparr>"

definition rated_aggs :: overview_aggs where
  "rated_aggs =
     \<lparr> total_products_value = 3,
       aggs_avg_price_value = Some (fl (19999 / 1000)),
       aggs_min_price_value = Some (Fin 10), aggs_max_price_value = Some (Fin 30),
       aggs_avg_rating_value = Some (fl (4449 / 1000)),
       aggs_in_stock_count_value = 2, aggs_out_of_stock_count_value = 1 \<rparr>"

text \<open>
  The request of the scenario: the text \<open>wireless\<close>, a multi-field match, the category
  \<open>Electronics\<close>, page 1 of size 10.
\<close>

definition wireless_body :: search_body where
  "wireless_body =
     \<lparr> body_query = Some ''wireless'',
       body_filters = Some (no_filters\<lparr> filters_category := Some ''Electronics'' \<rparr>),
       body_page = Some (Fin 1), body_size = Some (Fin 10), body_sort = None,
       body_order = None, body_searchType = Some ''multi_match'' \<rparr>"

text \<open>
  The percentile of the specification, by the nearest-rank method: the durations sorted
  ascending, read at the 0-based index \<open>\<lceil>p / 100 \<times> n\<rceil> - 1\<close>, in exact arithmetic.
\<close>

definition nearest_rank :: "nat \<Rightarrow> int list \<Rightarrow> int option" where
  "nearest_rank p ds =
     (let index = \<lceil>of_nat p / 100 * of_nat (length ds) :: rat\<rceil> - 1
      in if 0 \<le> index \<and> index < int (length ds) then Some (sort ds ! nat index) else None)"

text \<open>
  A sequence of percentile computations on one array, each on the store that the one before
  left.
\<close>

fun percentiles :: "store \<Rightarrow> nat \<Rightarrow> jsnum list \<Rightarrow> int option list \<times> store" where
  "percentiles h arr [] = ([], h)"
| "percentiles h arr (percentile # rest) =
     (let (v, h') = calculatePercentile h arr percentile;
          (vs, h'') = percentiles h' arr rest
      in (v # vs, h''))"

section \<open>Concrete inputs\<close>

text \<open>A bucket without documents.\<close>

definition empty_bucket :: category_bucket where
  "empty_bucket =
     \<lparr> bucket_key = ''Books'', doc_count = 0, avg_price_value = None,
       avg_rating_value = None, min_price_value = None, max_price_value = None,
       in_stock_count_value = 0 \<rparr>"

text \<open>A store with one array of four durations.\<close>

definition four_durations :: store where
  "four_durations = \<lparr> arrays = (\<lambda>a. [])(0 := [30, 10, 20, 40]), fresh = 1 \<rparr>"

text \<open>
  Worlds for a load test. The state of the world is the time in milliseconds, which only
  the calls of the engine advance; the queries are numbers. In \<open>failing_world\<close> every call
  is rejected after 5 ms with the message \<open>timeout\<close>; in \<open>flaky_world\<close> query 2 is rejected
  after 3 ms, query 4 resolves with \<open>null\<close> after 1 ms, and every other query is answered after
  5 ms.
\<close>

definition failing_world :: "(nat, int) world" where
  "failing_world =
     \<lparr> Date_now = (\<lambda>w. (w, w)),
       search = (\<lambda>q w. (Rejected ''timeout'', w + 5)),
       indexDocument = (\<lambda>q w. (Rejected ''timeout'', w + 5)),
       getDocument = (\<lambda>q w. (Rejected ''timeout'', w + 5)) \<rparr>"

definition flaky_search :: "nat \<Rightarrow> int \<Rightarrow> outcome \<times> int" where
  "flaky_search q w =
     (if q = 2 then (Rejected ''timeout'', w + 3)
      else if q = 4 then (Unreadable ''Cannot read properties of null'', w + 1)
      else (Resolved \<lparr> response_length = 120, response_hits = Some 7, response_took = Some 2 \<rparr>,
            w + 5))"

definition flaky_world :: "(nat, int) world" where
  "flaky_world =
     \<lparr> Date_now = (\<lambda>w. (w, w)), search = flaky_search, indexDocument = flaky_search,
       getDocument = flaky_search \<rparr>"

definition empty_store :: store where
  "empty_store = \<lparr> arrays = (\<lambda>a. []), fresh = 0 \<rparr>"

text \<open>The body of a load test of the queries \<open>qs\<close> with the given number of iterations.\<close>

definition test_body :: "nat list \<Rightarrow> nat \<Rightarrow> nat load_test_body" where
  "test_body qs n =
     \<lparr> body_queries = Some qs, body_iterations = Some n, body_concurrent = None,
       body_testType = None \<rparr>"

text \<open>Two iterations' worth of results that differ in the order of their two calls only.\<close>

definition call_3ms :: "nat query_result" where
  "call_3ms =
     \<lparr> result_query = 2, success = False, duration = 3, responseSize = None, hits = None,
       took = None, error = Some ''timeout'' \<rparr>"

definition call_5ms :: "nat query_result" where
  "call_5ms =
     \<lparr> result_query = 1, success = True, duration = 5, responseSize = Some 120,
       hits = Some 7, took = Some 2, error = None \<rparr>"

section \<open>Evaluating the definitions\<close>

lemma floor_rat_numeral: "\<lfloor>(numeral a :: rat) / numeral b\<rfloor> = numeral a div numeral b"
  by (metis floor_divide_of_int_eq of_int_numeral)

lemma ceiling_rat_numeral:
  "\<lceil>(numeral a :: rat) / numeral b\<rceil> = - (- numeral a div numeral b)"
  by (metis ceiling_divide_eq_div of_int_numeral)

lemmas fl_eval = fl_def ilog2_def rne_def Let_def compute_bitlen floor_rat_numeral
  ceiling_rat_numeral js_nat_def js_int_def

lemmas push_defs = push_category_def push_price_def push_rating_def push_inStock_def
  push_tags_def

lemmas string_eval = is_white_space_def is_digit_def digit_value_def digits_value_def
  digit_char_def decimal.simps

text \<open>
  The model of the arithmetic against values known from any JavaScript engine:
  \<open>0.1 + 0.2\<close> is \<open>0.30000000000000004\<close>, \<open>1.005 * 100\<close> is \<open>100.49999999999999\<close>,
  \<open>0.07 * 100\<close> is \<open>7.000000000000001\<close>, and \<open>2\<^sup>5\<^sup>3 + 1\<close> is not a Number.
\<close>

lemma fl_examples:
  "js_add (fl (1 / 10)) (fl (2 / 10)) = fl (30000000000000004 / 10 ^ 17)"
  "js_mul (fl (1005 / 1000)) (Fin 100) = fl (10049999999999999 / 10 ^ 14)"
  "js_mul (js_div (Fin 7) (Fin 100)) (Fin 100) = fl (7000000000000001 / 10 ^ 15)"
  "fl (2 ^ 53 + 1) = Fin (2 ^ 53)"
  by (simp_all add: fl_eval)

lemma js_nat_0 [simp]: "js_nat 0 = Fin 0"
  by (simp add: js_nat_def fl_def)

section \<open>Result Shaper\<close>

text \<open>
  C1, as stated, fails: for a bucket with \<open>doc_count = 0\<close> and no document in stock both
  handlers compute \<open>Math.round((0 / 0) * 100)\<close>, which is \<open>NaN\<close> and not \<open>0\<close>.
\<close>

theorem C1_empty_bucket_counterexample:
  "in_stock_percentage (analytics_categories empty_bucket) \<noteq> Fin 0 \<and>
   in_stock_percentage (aggregations_categories empty_bucket) \<noteq> Fin 0"
  by (simp add: analytics_categories_def aggregations_categories_def empty_bucket_def)

text \<open>
  C1, amended: for every bucket with a doc count of 0 and an in-stock sub-count of 0, the
  in-stock percentage shaped by either handler is \<open>NaN\<close>; no exception is raised.
\<close>

theorem C1_empty_bucket_percentage_NaN:
  assumes "doc_count bucket = 0" and "in_stock_count_value bucket = 0"
  shows "in_stock_percentage (analytics_categories bucket) = NaN \<and>
         in_stock_percentage (aggregations_categories bucket) = NaN"
  using assms by (simp add: analytics_categories_def aggregations_categories_def)

theorem C1_empty_bucket_percentage_NaN_witness:
  "doc_count empty_bucket = 0 \<and> in_stock_count_value empty_bucket = 0 \<and>
   in_stock_percentage (analytics_categories empty_bucket) = NaN \<and>
   in_stock_percentage (aggregations_categories empty_bucket) = NaN"
proof -
  have d: "doc_count empty_bucket = 0" and s: "in_stock_count_value empty_bucket = 0"
    by (simp_all add: empty_bucket_def)
  show ?thesis
    using d s C1_empty_bucket_percentage_NaN [OF d s] by simp
qed

lemma round2_examples:
  "round2 (fl (19999 / 1000)) = Fin 20"
  "round2 (fl (4449 / 1000)) = fl (445 / 100)"
  by (simp_all add: round2_def fl_eval)

lemma fl_445_neq: "fl (445 / 100) \<noteq> fl (44 / 10)"
  by (simp add: fl_eval)

text \<open>
  C3, as stated, fails for ratings: the rating average \<open>4.449\<close> is shaped to \<open>4.45\<close>, two
  decimals, by the categories handler and by the overview handler, not to \<open>4.4\<close>.
\<close>

theorem C3_rating_counterexample:
  "avg_rating (analytics_categories rated_bucket) \<noteq> fl (44 / 10) \<and>
   average_rating (analytics_overview rated_aggs) \<noteq> fl (44 / 10)"
  using fl_445_neq
  by (simp add: analytics_categories_def analytics_overview_def rated_bucket_def rated_aggs_def
        to_number_def round2_examples)

text \<open>
  C3, amended: the Result Shaper rounds currency averages and rating averages alike with
  \<open>Math.round(v * 100) / 100\<close>, that is to 2 decimal places: the product of \<open>v\<close> and \<open>100\<close> is
  rounded to the nearest integer, a half upwards, and divided by \<open>100\<close>. A price average of
  \<open>19.999\<close> shapes to \<open>20\<close> and a rating average of \<open>4.449\<close> to \<open>4.45\<close>.
\<close>

theorem C3_two_decimals:
  "avg_price (analytics_categories bucket) = round2 (to_number (avg_price_value bucket)) \<and>
   avg_rating (analytics_categories bucket) = round2 (to_number (avg_rating_value bucket)) \<and>
   average (overview_price_stats (analytics_overview aggs)) =
     round2 (to_number (aggs_avg_price_value aggs)) \<and>
   average_rating (analytics_overview aggs) = round2 (to_number (aggs_avg_rating_value aggs)) \<and>
   (\<forall>x y. fl (x * 100) = Fin y \<longrightarrow> round2 (Fin x) = fl (of_int \<lfloor>y + 1 / 2\<rfloor> / 100)) \<and>
   avg_price (analytics_categories rated_bucket) = Fin 20 \<and>
   avg_rating (analytics_categories rated_bucket) = fl (445 / 100)"
  by (simp add: analytics_categories_def analytics_overview_def round2_def rated_bucket_def
        to_number_def round2_examples [unfolded round2_def])

theorem C3_two_decimals_witness:
  "fl (1 / 8 * 100) = Fin (25 / 2) \<and> round2 (Fin (1 / 8)) = fl (13 / 100) \<and>
   average_rating (analytics_overview rated_aggs) = fl (445 / 100)"
proof -
  have h: "fl (1 / 8 * 100) = Fin (25 / 2)"
    by (simp add: fl_eval)
  have f: "\<lfloor>(25 / 2 :: rat) + 1 / 2\<rfloor> = 13"
    by simp
  from C3_two_decimals [of rated_bucket rated_aggs]
  have r: "average_rating (analytics_overview rated_aggs) =
      round2 (to_number (aggs_avg_rating_value rated_aggs))"
    and a: "\<forall>x y. fl (x * 100) = Fin y \<longrightarrow> round2 (Fin x) = fl (of_int \<lfloor>y + 1 / 2\<rfloor> / 100)"
    by blast+
  from a h have "round2 (Fin (1 / 8)) = fl (of_int \<lfloor>(25 / 2 :: rat) + 1 / 2\<rfloor> / 100)"
    by blast
  with f h r show ?thesis
    by (simp add: rated_aggs_def to_number_def round2_examples)
qed

section \<open>Filter Clause Builder\<close>

lemma filterQueries_eq:
  "filterQueries fs =
     (case filters_category fs of
        None \<Rightarrow> [] | Some c \<Rightarrow> if c = [] then [] else [Term ''category'' (JString c)]) @
     (if filters_priceMin fs = None \<and> filters_priceMax fs = None then []
      else [Range ''price'' (filters_priceMin fs) (filters_priceMax fs)]) @
     (case filters_rating fs of
        None \<Rightarrow> [] | Some r \<Rightarrow> if truthy_num r then [Range ''rating'' (Some r) None] else []) @
     (case filters_inStock fs of None \<Rightarrow> [] | Some b \<Rightarrow> [Term ''inStock'' (JBoolean b)]) @
     (case filters_tags fs of
        None \<Rightarrow> [] | Some ts \<Rightarrow> if ts = [] then [] else [Terms ''tags'' ts])"
  by (simp add: filterQueries_def push_defs split: option.splits)

text \<open>
  C5, as stated, fails: a FilterSet whose only field is an empty category, or a rating floor
  of 0, has one present field and yields no clause.
\<close>

theorem C5_falsy_field_counterexample:
  "present_fields (no_filters\<lparr> filters_category := Some [] \<rparr>) = 1 \<and>
   filterQueries (no_filters\<lparr> filters_category := Some [] \<rparr>) = [] \<and>
   present_fields (no_filters\<lparr> filters_rating := Some (Fin 0) \<rparr>) = 1 \<and>
   filterQueries (no_filters\<lparr> filters_rating := Some (Fin 0) \<rparr>) = []"
  by (simp add: present_fields_def filterQueries_eq no_filters_def truthy_num_def)

text \<open>
  C5, amended: the Filter Clause Builder emits, in this fixed order, a category term clause
  when the category is present and not empty, a price range clause with the bounds that are
  present when one is, a rating-floor range clause when the rating is present and neither 0
  nor NaN, a stock-status term clause when the stock flag is present, and a tags membership
  clause when the tags are present and not empty; the number of clauses is the number of
  these fields, and a FilterSet with all fields absent yields the empty sequence.
\<close>

theorem C5_one_clause_per_effective_field:
  "filterQueries fs =
     (case filters_category fs of
        None \<Rightarrow> [] | Some c \<Rightarrow> if c = [] then [] else [Term ''category'' (JString c)]) @
     (if filters_priceMin fs = None \<and> filters_priceMax fs = None then []
      else [Range ''price'' (filters_priceMin fs) (filters_priceMax fs)]) @
     (case filters_rating fs of
        None \<Rightarrow> [] | Some r \<Rightarrow> if truthy_num r then [Range ''rating'' (Some r) None] else []) @
     (case filters_inStock fs of None \<Rightarrow> [] | Some b \<Rightarrow> [Term ''inStock'' (JBoolean b)]) @
     (case filters_tags fs of
        None \<Rightarrow> [] | Some ts \<Rightarrow> if ts = [] then [] else [Terms ''tags'' ts]) \<and>
   length (filterQueries fs) = effective_fields fs \<and>
   filterQueries no_filters = []"
proof (intro conjI)
  show "length (filterQueries fs) = effective_fields fs"
    by (simp add: filterQueries_eq effective_fields_def split: option.splits)
  show "filterQueries no_filters = []"
    by (simp add: filterQueries_eq no_filters_def)
qed (rule filterQueries_eq)

theorem C5_one_clause_per_effective_field_witness:
  "filterQueries
     \<lparr> filters_category = Some ''Electronics'', filters_priceMin = Some (Fin 10),
       filters_priceMax = None, filters_rating = Some (Fin 4), filters_inStock = Some False,
       filters_tags = Some [''new'', ''sale''] \<rparr> =
     [Term ''category'' (JString ''Electronics''), Range ''price'' (Some (Fin 10)) None,
      Range ''rating'' (Some (Fin 4)) None, Term ''inStock'' (JBoolean False),
      Terms ''tags'' [''new'', ''sale'']] \<and>
   effective_fields
     \<lparr> filters_category = Some ''Electronics'', filters_priceMin = Some (Fin 10),
       filters_priceMax = None, filters_rating = Some (Fin 4), filters_inStock = Some False,
       filters_tags = Some [''new'', ''sale''] \<rparr> = 5"
  using C5_one_clause_per_effective_field
    [of "\<lparr> filters_category = Some ''Electronics'', filters_priceMin = Some (Fin 10),
       filters_priceMax = None, filters_rating = Some (Fin 4), filters_inStock = Some False,
       filters_tags = Some [''new'', ''sale''] \<rparr>"]
  by (simp add: truthy_num_def effective_fields_def)

section \<open>Query Tree Compiler\<close>

lemma keys_length_pos: "filterQueries fs \<noteq> [] \<Longrightarrow> 0 < keys_length fs"
  by (auto simp add: filterQueries_eq keys_length_def split: option.splits if_splits)

lemma wireless_filterQueries:
  "filterQueries (or_default no_filters (body_filters wireless_body)) =
     [Term ''category'' (JString ''Electronics'')]"
  by (simp add: wireless_body_def or_default_def no_filters_def filterQueries_eq)

lemma parseInt_10: "parseInt (int_toString (Fin 10)) = Fin 10"
proof -
  have a: "int_toString (Fin 10) = ''10''"
    by (simp add: string_eval)
  have b: "parseInt ''10'' = Fin 10"
    by (simp add: parseInt_def string_eval fl_eval)
  show ?thesis by (simp only: a b)
qed

lemma wireless_paging:
  "sq_from (search_query int_toString wireless_body) = Fin 0"
  "sq_size (search_query int_toString wireless_body) = Fin 10"
  "sq_sort (search_query int_toString wireless_body) = [(''createdAt'', ''desc'')]"
  by (simp_all add: search_query_def Let_def wireless_body_def or_default_def js_sub_def
        fl_def parseInt_10 del: int_toString.simps)

text \<open>
  C7: a non-empty sequence of filter clauses makes the query a boolean node with the
  primary match as its only \<open>must\<close> entry and the clauses as its \<open>filter\<close> entries; with an
  empty sequence the query is the primary match itself. The request of the scenario compiles
  to the boolean query of the multi-field weighted match on \<open>wireless\<close> with the single
  filter \<open>category = Electronics\<close>, \<open>from = 0\<close> and \<open>size = 10\<close>.
\<close>

theorem C7_bool_wrapper:
  "(filterQueries (or_default no_filters (body_filters body)) \<noteq> [] \<longrightarrow>
      sq_query (search_query ToString body) =
        Bool [primary_match (or_default ''multi_match'' (body_searchType body)) (body_query body)]
             (filterQueries (or_default no_filters (body_filters body)))) \<and>
   (filterQueries (or_default no_filters (body_filters body)) = [] \<longrightarrow>
      sq_query (search_query ToString body) =
        primary_match (or_default ''multi_match'' (body_searchType body)) (body_query body)) \<and>
   search_query int_toString wireless_body =
     \<lparr> sq_query =
         Bool [Multi_match (Some ''wireless'')
                 [''name^3'', ''description^2'', ''category'', ''tags''] ''best_fields'' ''AUTO'']
              [Term ''category'' (JString ''Electronics'')],
       sq_from = Fin 0, sq_size = Fin 10, sq_sort = [(''createdAt'', ''desc'')] \<rparr>"
proof (intro conjI impI)
  assume "filterQueries (or_default no_filters (body_filters body)) \<noteq> []"
  then show "sq_query (search_query ToString body) =
      Bool [primary_match (or_default ''multi_match'' (body_searchType body)) (body_query body)]
           (filterQueries (or_default no_filters (body_filters body)))"
    by (simp add: search_query_def Let_def keys_length_pos)
next
  assume "filterQueries (or_default no_filters (body_filters body)) = []"
  then show "sq_query (search_query ToString body) =
      primary_match (or_default ''multi_match'' (body_searchType body)) (body_query body)"
    by (simp add: search_query_def Let_def)
next
  have "sq_query (search_query int_toString wireless_body) =
      Bool [primary_match (or_default ''multi_match'' (body_searchType wireless_body))
              (body_query wireless_body)]
           (filterQueries (or_default no_filters (body_filters wireless_body)))"
    by (simp add: search_query_def Let_def keys_length_pos wireless_filterQueries)
  then have "sq_query (search_query int_toString wireless_body) =
      Bool [Multi_match (Some ''wireless'')
              [''name^3'', ''description^2'', ''category'', ''tags''] ''best_fields'' ''AUTO'']
           [Term ''category'' (JString ''Electronics'')]"
    by (simp add: wireless_filterQueries)
       (simp add: wireless_body_def or_default_def primary_match_def)
  then show "search_query int_toString wireless_body =
     \<lparr> sq_query =
         Bool [Multi_match (Some ''wireless'')
                 [''name^3'', ''description^2'', ''category'', ''tags''] ''best_fields'' ''AUTO'']
              [Term ''category'' (JString ''Electronics'')],
       sq_from = Fin 0, sq_size = Fin 10, sq_sort = [(''createdAt'', ''desc'')] \<rparr>"
    using wireless_paging by (cases "search_query int_toString wireless_body") simp
qed

theorem C7_bool_wrapper_witness:
  "filterQueries (or_default no_filters (body_filters wireless_body)) \<noteq> [] \<and>
   sq_query (search_query int_toString wireless_body) =
     Bool [primary_match ''multi_match'' (Some ''wireless'')]
          [Term ''category'' (JString ''Electronics'')] \<and>
   filterQueries (or_default no_filters (body_filters (wireless_body\<lparr> body_filters := None \<rparr>))) = [] \<and>
   sq_query (search_query int_toString (wireless_body\<lparr> body_filters := None \<rparr>)) =
     primary_match ''multi_match'' (Some ''wireless'')"
proof -
  have a: "filterQueries (or_default no_filters (body_filters wireless_body)) \<noteq> []"
    by (simp add: wireless_filterQueries)
  have b: "filterQueries (or_default no_filters
             (body_filters (wireless_body\<lparr> body_filters := None \<rparr>))) = []"
    by (simp add: or_default_def filterQueries_eq no_filters_def)
  from a b C7_bool_wrapper [of wireless_body int_toString]
    C7_bool_wrapper [of "wireless_body\<lparr> body_filters := None \<rparr>" int_toString]
  show ?thesis
    by (simp add: wireless_filterQueries)
       (simp add: wireless_body_def or_default_def)
qed

section \<open>Aggregation Spec Builder\<close>

lemma priceRanges_loop_eq:
  "priceRanges_loop S vs i acc =
     acc @ map (\<lambda>i. if i = 0 then
                        \<lparr> range_from = None, range_to = Some (vs ! i),
                          range_key = ''Under $'' @ S (vs ! i) \<rparr>
                      else
                        \<lparr> range_from = Some (vs ! (i - 1)), range_to = Some (vs ! i),
                          range_key = ''$'' @ S (vs ! (i - 1)) @ '' - $'' @ S (vs ! i) \<rparr>)
                [i..<length vs]"
proof (induction S vs i acc rule: priceRanges_loop.induct)
  case (1 S vs i acc)
  show ?case
  proof (cases "i < length vs")
    case True
    then have "[i..<length vs] = i # [Suc i..<length vs]"
      by (rule upt_conv_Cons)
    with True 1 show ?thesis
      by (subst priceRanges_loop.simps) simp
  next
    case False
    then show ?thesis
      by (subst priceRanges_loop.simps) simp
  qed
qed

lemma priceRanges_eq:
  "vs \<noteq> [] \<Longrightarrow>
   priceRanges S vs =
     map (\<lambda>i. if i = 0 then
                 \<lparr> range_from = None, range_to = Some (vs ! i),
                   range_key = ''Under $'' @ S (vs ! i) \<rparr>
               else
                 \<lparr> range_from = Some (vs ! (i - 1)), range_to = Some (vs ! i),
                   range_key = ''$'' @ S (vs ! (i - 1)) @ '' - $'' @ S (vs ! i) \<rparr>)
         [0..<length vs] @
     [\<lparr> range_from = Some (last vs), range_to = None,
        range_key = ''Over $'' @ S (last vs) \<rparr>]"
  by (simp add: priceRanges_def priceRanges_loop_eq)

lemma split_comma_not_Nil: "split_comma s \<noteq> []"
  by (induction s) (auto split: list.splits)

lemma js_less_irrefl: "\<not> js_less v v"
  by (cases v) simp_all

lemma sorted_wrt_js_less_distinct: "sorted_wrt js_less vs \<Longrightarrow> distinct vs"
  by (induction vs) (auto simp: js_less_irrefl)

lemma append_sep_eq:
  assumes "c \<notin> set xs" and "c \<notin> set ys" and "xs @ c # r = ys @ c # r'"
  shows "xs = ys"
proof -
  have "takeWhile (\<lambda>x. x \<noteq> c) (xs @ c # r) = xs"
    using assms(1) by (auto simp add: takeWhile_tail)
  moreover have "takeWhile (\<lambda>x. x \<noteq> c) (ys @ c # r') = ys"
    using assms(2) by (auto simp add: takeWhile_tail)
  ultimately show ?thesis
    using assms(3) by simp
qed

lemma range_keys_distinct:
  assumes ne: "vs \<noteq> []" and d: "distinct vs" and inj: "inj_on S (set vs)"
    and sp: "\<forall>v \<in> set vs. CHR '' '' \<notin> set (S v)"
  shows "distinct (map range_key (priceRanges S vs))"
proof -
  let ?K = "\<lambda>i. if i = 0 then ''Under $'' @ S (vs ! i)
                  else ''$'' @ S (vs ! (i - 1)) @ '' - $'' @ S (vs ! i)"
  have keys: "map range_key (priceRanges S vs) =
      map ?K [0..<length vs] @ [''Over $'' @ S (last vs)]"
    using ne by (simp add: priceRanges_eq comp_def if_distrib [of range_key] cong: if_cong)
  have "inj_on ?K {0..<length vs}"
  proof (rule inj_onI)
    fix i j
    assume i: "i \<in> {0..<length vs}" and j: "j \<in> {0..<length vs}" and eq: "?K i = ?K j"
    show "i = j"
    proof (cases "i = 0 \<or> j = 0")
      case True
      with eq show ?thesis
        by (auto split: if_splits)
    next
      case False
      then have pos: "0 < i" "0 < j"
        by simp_all
      with eq have "S (vs ! (i - 1)) @ CHR '' '' # ''- $'' @ S (vs ! i) =
          S (vs ! (j - 1)) @ CHR '' '' # ''- $'' @ S (vs ! j)"
        by simp
      moreover have "CHR '' '' \<notin> set (S (vs ! (i - 1)))" "CHR '' '' \<notin> set (S (vs ! (j - 1)))"
        using sp i j pos by simp_all
      ultimately have "S (vs ! (i - 1)) = S (vs ! (j - 1))"
        by (metis append_sep_eq)
      with inj i j pos have "vs ! (i - 1) = vs ! (j - 1)"
        by (simp add: inj_on_def)
      with d i j pos have "i - 1 = j - 1"
        by (simp add: nth_eq_iff_index_eq)
      with pos show ?thesis
        by simp
    qed
  qed
  then have "distinct (map ?K [0..<length vs])"
    by (simp add: distinct_map)
  moreover have "''Over $'' @ S (last vs) \<notin> set (map ?K [0..<length vs])"
    by auto
  ultimately show ?thesis
    unfolding keys by simp
qed

text \<open>
  C2, as stated, fails: the list \<open>100,50\<close> is neither sorted nor rejected; the builder
  derives the buckets \<open>(-\<infinity>, 100)\<close>, \<open>(100, 50)\<close> and \<open>(50, +\<infinity>)\<close> from it, in the caller's order.
\<close>

theorem C2_unsorted_counterexample:
  "price_analysis_ranges digits_toNumber int_toString (Some ''100,50'') =
     [\<lparr> range_from = None, range_to = Some (Fin 100), range_key = ''Under $100'' \<rparr>,
      \<lparr> range_from = Some (Fin 100), range_to = Some (Fin 50), range_key = ''$100 - $50'' \<rparr>,
      \<lparr> range_from = Some (Fin 50), range_to = None, range_key = ''Over $50'' \<rparr>]"
  by (simp add: price_analysis_ranges_def or_default_def priceRanges_def digits_toNumber_def
        priceRanges_loop.simps string_eval fl_eval)

text \<open>
  C2, amended: for every caller-supplied delimited list the Aggregation Spec Builder takes
  the values \<open>b\<^sub>1, \<dots>, b\<^sub>n\<close> in the caller's order (\<open>n \<ge> 1\<close>; it neither sorts them nor rejects a
  list) and produces exactly \<open>n + 1\<close> range buckets with the boundaries \<open>(-\<infinity>, b\<^sub>1)\<close>,
  \<open>(b\<^sub>1, b\<^sub>2)\<close>, \dots, \<open>(b\<^sub>n, +\<infinity>)\<close>, the first labelled \<open>Under $b\<^sub>1\<close>, the inner ones
  \<open>$b\<^sub>i - $b\<^sub>i\<^sub>+\<^sub>1\<close> and the last \<open>Over $b\<^sub>n\<close>; for a strictly increasing list the labels are unique
  (the conversion of a Number to a String prints different Numbers differently and without
  a space).
\<close>

theorem C2_buckets_in_caller_order:
  assumes "rangeValues = map ToNumber (split_comma (or_default ''50,100,200,500'' ranges))"
    and "buckets = price_analysis_ranges ToNumber ToString ranges"
  shows "rangeValues \<noteq> [] \<and>
    length buckets = length rangeValues + 1 \<and>
    buckets ! 0 =
      \<lparr> range_from = None, range_to = Some (rangeValues ! 0),
        range_key = ''Under $'' @ ToString (rangeValues ! 0) \<rparr> \<and>
    (\<forall>i. 0 < i \<and> i < length rangeValues \<longrightarrow>
       buckets ! i =
         \<lparr> range_from = Some (rangeValues ! (i - 1)), range_to = Some (rangeValues ! i),
           range_key = ''$'' @ ToString (rangeValues ! (i - 1)) @ '' - $'' @
                       ToString (rangeValues ! i) \<rparr>) \<and>
    buckets ! length rangeValues =
      \<lparr> range_from = Some (last rangeValues), range_to = None,
        range_key = ''Over $'' @ ToString (last rangeValues) \<rparr> \<and>
    (sorted_wrt js_less rangeValues \<and> inj_on ToString (set rangeValues) \<and>
     (\<forall>v \<in> set rangeValues. CHR '' '' \<notin> set (ToString v)) \<longrightarrow>
       distinct (map range_key buckets))"
proof -
  have ne: "rangeValues \<noteq> []"
    using assms(1) by (simp add: split_comma_not_Nil)
  have b: "buckets = priceRanges ToString rangeValues"
    using assms by (simp add: price_analysis_ranges_def)
  have len: "length buckets = length rangeValues + 1"
    using ne by (simp add: b priceRanges_eq)
  have first: "buckets ! 0 =
      \<lparr> range_from = None, range_to = Some (rangeValues ! 0),
        range_key = ''Under $'' @ ToString (rangeValues ! 0) \<rparr>"
    using ne by (simp add: b priceRanges_eq nth_append)
  have inner: "\<forall>i. 0 < i \<and> i < length rangeValues \<longrightarrow>
       buckets ! i =
         \<lparr> range_from = Some (rangeValues ! (i - 1)), range_to = Some (rangeValues ! i),
           range_key = ''$'' @ ToString (rangeValues ! (i - 1)) @ '' - $'' @
                       ToString (rangeValues ! i) \<rparr>"
    using ne by (simp add: b priceRanges_eq nth_append)
  have final: "buckets ! length rangeValues =
      \<lparr> range_from = Some (last rangeValues), range_to = None,
        range_key = ''Over $'' @ ToString (last rangeValues) \<rparr>"
    using ne by (simp add: b priceRanges_eq nth_append)
  have keys: "sorted_wrt js_less rangeValues \<and> inj_on ToString (set rangeValues) \<and>
     (\<forall>v \<in> set rangeValues. CHR '' '' \<notin> set (ToString v)) \<longrightarrow>
       distinct (map range_key buckets)"
    using ne b by (simp add: range_keys_distinct sorted_wrt_js_less_distinct)
  from ne len first inner final keys show ?thesis
    by blast
qed

lemma split_50_100: "map digits_toNumber (split_comma ''50,100'') = [Fin 50, Fin 100]"
  by (simp add: digits_toNumber_def string_eval fl_eval)

theorem C2_buckets_in_caller_order_witness:
  "sorted_wrt js_less [Fin 50, Fin 100] \<and> inj_on int_toString (set [Fin 50, Fin 100]) \<and>
   CHR '' '' \<notin> set (int_toString (Fin 50)) \<and> CHR '' '' \<notin> set (int_toString (Fin 100)) \<and>
   length (price_analysis_ranges digits_toNumber int_toString (Some ''50,100'')) = 3 \<and>
   price_analysis_ranges digits_toNumber int_toString (Some ''50,100'') ! 1 =
     \<lparr> range_from = Some (Fin 50), range_to = Some (Fin 100), range_key = ''$50 - $100'' \<rparr> \<and>
   distinct (map range_key (price_analysis_ranges digits_toNumber int_toString (Some ''50,100'')))"
proof -
  have v: "[Fin 50, Fin 100] =
      map digits_toNumber (split_comma (or_default ''50,100,200,500'' (Some ''50,100'')))"
    by (simp only: split_50_100 or_default_def option.case)
  have s: "int_toString (Fin 50) = ''50''" "int_toString (Fin 100) = ''100''"
    by (simp_all add: string_eval)
  have h: "sorted_wrt js_less [Fin 50, Fin 100]" "inj_on int_toString (set [Fin 50, Fin 100])"
    "\<forall>v \<in> set [Fin 50, Fin 100]. CHR '' '' \<notin> set (int_toString v)"
    using s by (simp_all del: int_toString.simps)
  from C2_buckets_in_caller_order [OF v refl, of int_toString] h s show ?thesis
    by (simp del: int_toString.simps)
qed

section \<open>Properties of the rounding of Numbers\<close>

lemma rne_upper: "of_int (rne x) \<le> x + 1 / 2"
  unfolding rne_def Let_def by (auto; linarith)

lemma rne_lower: "x - 1 / 2 \<le> of_int (rne x)"
  unfolding rne_def Let_def by (auto; linarith)

lemma rne_of_int [simp]: "rne (of_int m) = m"
  by (simp add: rne_def)

lemma rne_le_int: "x < of_int m + 1 / 2 \<Longrightarrow> rne x \<le> m"
proof -
  assume "x < of_int m + 1 / 2"
  with rne_upper [of x] have "(of_int (rne x) :: rat) < of_int (m + 1)"
    by simp
  then have "rne x < m + 1"
    by (simp only: of_int_less_iff)
  then show ?thesis
    by simp
qed

lemma ilog2_bounds:
  assumes "0 < x"
  shows "2 powi (ilog2 x) \<le> x \<and> x < 2 powi (ilog2 x + 1)"
proof (cases "1 \<le> x")
  case True
  define m where "m = \<lfloor>x\<rfloor>"
  have m: "0 < m" "of_int m \<le> x" "x < of_int (m + 1)"
    using True by (simp_all add: m_def) linarith
  define b where "b = nat (bitlen m - 1)"
  have bl: "bitlen m = int b + 1"
    using m(1) bitlen_nonneg [of m] bitlen_eq_zero_iff [of m] by (simp add: b_def; linarith)
  from bitlen_bounds [OF m(1)] have "2 ^ b \<le> m" "m < 2 ^ (Suc b)"
    by (simp_all add: bl nat_add_distrib)
  then have "(2 :: rat) ^ b \<le> of_int m" "(of_int (m + 1) :: rat) \<le> 2 ^ (Suc b)"
    by (metis of_int_le_iff of_int_numeral of_int_power,
        metis of_int_le_iff of_int_numeral of_int_power zless_imp_add1_zle)
  with m have x: "(2 :: rat) ^ b \<le> x" "x < 2 ^ (Suc b)"
    by linarith+
  have "ilog2 x = int b"
    using True by (simp add: ilog2_def m_def [symmetric] bl)
  then have "(2 :: rat) powi (ilog2 x) = 2 ^ b" "(2 :: rat) powi (ilog2 x + 1) = 2 ^ (Suc b)"
    using power_int_of_nat [of "2 :: rat" b] power_int_of_nat [of "2 :: rat" "Suc b"]
    by (simp_all add: add.commute)
  with x show ?thesis
    by (simp only:; simp)
next
  case False
  define y where "y = 1 / x"
  have y: "1 < y" "x = 1 / y"
    using False assms by (simp_all add: y_def)
  define m where "m = \<lceil>y\<rceil> - 1"
  have m: "0 < m" "of_int m < y" "y \<le> of_int (m + 1)"
    using y(1) by (simp_all add: m_def) linarith+
  define b where "b = nat (bitlen m - 1)"
  have bl: "bitlen m = int b + 1"
    using m(1) bitlen_nonneg [of m] bitlen_eq_zero_iff [of m] by (simp add: b_def; linarith)
  from bitlen_bounds [OF m(1)] have "2 ^ b \<le> m" "m < 2 ^ (Suc b)"
    by (simp_all add: bl nat_add_distrib)
  then have "(2 :: rat) ^ b \<le> of_int m" "(of_int (m + 1) :: rat) \<le> 2 ^ (Suc b)"
    by (metis of_int_le_iff of_int_numeral of_int_power,
        metis of_int_le_iff of_int_numeral of_int_power zless_imp_add1_zle)
  with m have b: "(2 :: rat) ^ b < y" "y \<le> 2 ^ (Suc b)"
    by linarith+
  have "1 / 2 ^ (Suc b) \<le> 1 / y"
    using y(1) b(2) by (intro frac_le) simp_all
  moreover have "1 / y < 1 / 2 ^ b"
    using b(1) by (intro frac_less2) simp_all
  ultimately have x: "1 / 2 ^ (Suc b) \<le> x" "x < 1 / 2 ^ b"
    by (simp_all only: y(2))
  have "ilog2 x = - int (Suc b)"
    using False by (simp add: ilog2_def y_def [symmetric] m_def [symmetric] bl)
  moreover from this have "ilog2 x + 1 = - int b"
    by simp
  ultimately have "(2 :: rat) powi (ilog2 x) = 1 / 2 ^ (Suc b)"
    "(2 :: rat) powi (ilog2 x + 1) = 1 / 2 ^ b"
    using power_int_of_nat [of "2 :: rat" b] power_int_of_nat [of "2 :: rat" "Suc b"]
    by (simp_all only: power_int_minus inverse_eq_divide)
  with x show ?thesis
    by (simp only:; simp)
qed

lemma fl_normal:
  assumes "1 / 2 \<le> x" and "x < 2 ^ 53"
  obtains s where "2 ^ 52 \<le> x * 2 ^ s" and "x * 2 ^ s < 2 ^ 53"
    and "fl x = Fin (of_int (rne (x * 2 ^ s)) / 2 ^ s)"
proof -
  have pos: "0 < x"
    using assms(1) by simp
  define L where "L = ilog2 x"
  from ilog2_bounds [OF pos] have lb: "2 powi L \<le> x" and ub: "x < 2 powi (L + 1)"
    by (simp_all add: L_def)
  have L1: "- 1 \<le> L"
  proof (rule ccontr)
    assume "\<not> - 1 \<le> L"
    then have "L + 1 \<le> - 1"
      by simp
    then have "(2 :: rat) powi (L + 1) \<le> 2 powi (- 1)"
      by (intro power_int_increasing) simp_all
    moreover have "(2 :: rat) powi (- 1) = 1 / 2"
      by (simp add: power_int_minus)
    ultimately show False
      using ub assms(1) by linarith
  qed
  have L2: "L \<le> 52"
  proof (rule ccontr)
    assume "\<not> L \<le> 52"
    then have "53 \<le> L"
      by simp
    then have "(2 :: rat) powi 53 \<le> 2 powi L"
      by (intro power_int_increasing) simp_all
    moreover have "(2 :: rat) powi 53 = 2 ^ 53"
      by simp
    ultimately show False
      using lb assms(2) by linarith
  qed
  define s where "s = nat (52 - L)"
  have s: "L = 52 - int s"
    using L2 by (simp add: s_def)
  have "ilog2 x - 52 = - int s"
    by (simp add: L_def [symmetric] s_def L2)
  moreover have "int s \<le> 53"
    using L1 by (simp add: s_def)
  ultimately have e: "max (ilog2 x - 52) (- 1074) = - int s"
    by simp
  have p: "(2 :: rat) powi (- int s) = 1 / 2 ^ s"
    by (simp add: power_int_minus inverse_eq_divide)
  have "(2 :: rat) powi (L + int s) = 2 powi L * 2 powi (int s)"
    by (rule power_int_add) simp
  moreover have "L + int s = 52"
    by (simp add: s)
  ultimately have "(2 :: rat) powi L * 2 ^ s = 2 ^ 52"
    by simp
  moreover have "2 powi L * 2 ^ s \<le> x * 2 ^ s"
    using lb by (rule mult_right_mono) simp
  ultimately have z1: "2 ^ 52 \<le> x * 2 ^ s"
    by simp
  have "(2 :: rat) powi (L + 1 + int s) = 2 powi (L + 1) * 2 powi (int s)"
    by (rule power_int_add) simp
  moreover have "L + 1 + int s = 53"
    by (simp add: s)
  ultimately have "(2 :: rat) powi (L + 1) * 2 ^ s = 2 ^ 53"
    by simp
  moreover have "x * 2 ^ s < 2 powi (L + 1) * 2 ^ s"
    using ub by (rule mult_strict_right_mono) simp
  ultimately have z2: "x * 2 ^ s < 2 ^ 53"
    by simp
  have "of_int (rne (x * 2 ^ s)) \<le> x * 2 ^ s + 1 / 2"
    by (rule rne_upper)
  with z2 have r: "(of_int (rne (x * 2 ^ s)) :: rat) < 2 ^ 54"
    by simp
  have "(2 :: rat) ^ 54 * 1 \<le> 2 ^ 54 * 2 ^ s"
    by (intro mult_left_mono) simp_all
  with r have "(of_int (rne (x * 2 ^ s)) :: rat) < 2 ^ 54 * 2 ^ s"
    by linarith
  then have "(of_int (rne (x * 2 ^ s)) :: rat) / 2 ^ s < 2 ^ 54"
    by (simp add: pos_divide_less_eq)
  then have n: "\<not> (2 :: rat) ^ 1024 \<le> of_int (rne (x * 2 ^ s)) / 2 ^ s"
    by simp
  have a: "\<bar>x\<bar> = x" "sgn x = 1" "x \<noteq> 0"
    using pos by simp_all
  have "fl x = Fin (of_int (rne (x * 2 ^ s)) / 2 ^ s)"
    unfolding fl_def Let_def a e p using n pos by simp
  with z1 z2 show ?thesis
    by (rule that)
qed

lemma fl_lower_bound:
  assumes "1 / 2 \<le> x" and "x < 2 ^ 53" and "fl x = Fin y"
  shows "x - x / 2 ^ 53 \<le> y"
proof -
  from assms(1,2) obtain s where s: "2 ^ 52 \<le> x * 2 ^ s"
    and f: "fl x = Fin (of_int (rne (x * 2 ^ s)) / 2 ^ s)"
    by (rule fl_normal)
  define X where "X = x * 2 ^ s"
  define Y where "Y = y * 2 ^ s"
  from f assms(3) have "Y = of_int (rne X)"
    by (simp add: X_def Y_def)
  then have "X - 1 / 2 \<le> Y"
    by (simp only: rne_lower)
  moreover have "2 ^ 52 \<le> X"
    using s by (simp only: X_def)
  ultimately have "X - X / 2 ^ 53 \<le> Y"
    by simp
  moreover have "(x - x / 2 ^ 53) * 2 ^ s = X - X / 2 ^ 53"
    by (simp only: X_def left_diff_distrib times_divide_eq_left)
  ultimately have "(x - x / 2 ^ 53) * 2 ^ s \<le> y * 2 ^ s"
    by (simp only: Y_def)
  moreover have "(0 :: rat) < 2 ^ s"
    by simp
  ultimately show ?thesis
    by (rule mult_right_le_imp_le)
qed

lemma fl_le_int:
  assumes "1 / 2 \<le> x" and "x < 2 ^ 53" and "fl x = Fin y" and "x - of_int k < x / 2 ^ 54"
  shows "y \<le> of_int k"
proof -
  from assms(1,2) obtain s where s: "x * 2 ^ s < 2 ^ 53"
    and f: "fl x = Fin (of_int (rne (x * 2 ^ s)) / 2 ^ s)"
    by (rule fl_normal)
  define X where "X = x * 2 ^ s"
  define K where "K = k * 2 ^ s"
  have p: "(0 :: rat) < 2 ^ s"
    by simp
  from f assms(3) have y: "y * 2 ^ s = of_int (rne X)"
    by (simp add: X_def)
  have "(x - of_int k) * 2 ^ s < x / 2 ^ 54 * 2 ^ s"
    using assms(4) p by (rule mult_strict_right_mono)
  moreover have "(x - of_int k) * 2 ^ s = X - of_int K"
    by (simp add: X_def K_def left_diff_distrib)
  moreover have "x / 2 ^ 54 * 2 ^ s = X / 2 ^ 54"
    by (simp add: X_def)
  ultimately have "X - of_int K < X / 2 ^ 54"
    by simp
  moreover have "X < 2 ^ 53"
    using s by (simp only: X_def)
  ultimately have "X < of_int K + 1 / 2"
    by simp
  then have "rne X \<le> K"
    by (rule rne_le_int)
  then have "(of_int (rne X) :: rat) \<le> of_int K"
    by (simp only: of_int_le_iff)
  then have "y * 2 ^ s \<le> of_int k * 2 ^ s"
    by (simp add: y K_def)
  then show ?thesis
    using p by (rule mult_right_le_imp_le)
qed

lemma fl_minus: "fl (- x) = js_neg (fl x)"
proof (cases "x = 0")
  case True
  then show ?thesis
    by (simp add: fl_def)
next
  case False
  define y where "y = rat_of_int (rne (\<bar>x\<bar> / 2 powi (max (ilog2 \<bar>x\<bar> - 52) (- 1074)))) *
    2 powi (max (ilog2 \<bar>x\<bar> - 52) (- 1074))"
  have a: "fl x = (if 2 ^ 1024 \<le> y then (if 0 < x then PosInf else NegInf) else Fin (sgn x * y))"
    using False by (simp add: fl_def Let_def y_def)
  have b: "fl (- x) =
      (if 2 ^ 1024 \<le> y then (if 0 < - x then PosInf else NegInf) else Fin (sgn (- x) * y))"
    using False by (simp add: fl_def Let_def y_def)
  show ?thesis
    unfolding a b using False by (cases "0 < x") simp_all
qed

lemma fl_2_53: "fl 9007199254740992 = Fin 9007199254740992"
  by (simp add: fl_eval)

lemma fl_of_nat:
  assumes "n \<le> 2 ^ 53"
  shows "fl (of_nat n) = Fin (of_nat n)"
proof -
  consider "n = 0" | "n = 9007199254740992" | "0 < n" "n < 9007199254740992"
    using assms by fastforce
  then show ?thesis
  proof cases
    case 1
    then show ?thesis
      by (simp add: fl_def)
  next
    case 2
    then show ?thesis
      by (simp only: of_nat_numeral fl_2_53)
  next
    case 3
    then have "n < 2 ^ 53"
      by simp
    then have "(of_nat n :: rat) < 2 ^ 53"
      by simp
    moreover have "1 / 2 \<le> (of_nat n :: rat)"
      using 3(1) by simp
    ultimately have n: "1 / 2 \<le> (of_nat n :: rat)" "(of_nat n :: rat) < 2 ^ 53"
      by simp_all
    then obtain s where f: "fl (of_nat n) = Fin (of_int (rne (of_nat n * 2 ^ s)) / 2 ^ s)"
      by (rule fl_normal)
    have "(of_nat n :: rat) * 2 ^ s = of_int (int n * 2 ^ s)"
      by simp
    then have "rne (of_nat n * 2 ^ s) = int n * 2 ^ s"
      by (simp only: rne_of_int)
    then show ?thesis
      by (simp add: f)
  qed
qed

lemma fl_of_int:
  assumes "\<bar>k\<bar> \<le> 2 ^ 53"
  shows "fl (of_int k) = Fin (of_int k)"
proof (cases "0 \<le> k")
  case True
  with assms fl_of_nat [of "nat k"] show ?thesis
    by (simp add: nat_le_iff)
next
  case False
  with assms fl_of_nat [of "nat (- k)"] have "fl (of_int (- k)) = Fin (of_int (- k))"
    by (simp add: nat_le_iff)
  then show ?thesis
    using fl_minus [of "of_int (- k)"] by simp
qed

section \<open>The index of a percentile\<close>

lemma ceil_fl_scaled:
  fixes c q :: rat
  assumes c: "1 / 2 \<le> c" "c \<le> 1"
    and up: "c - q < c / 2 ^ 54"
    and low: "q - (c - c / 2 ^ 53) < 1 / (100 * 2 ^ 32)"
    and q: "q = of_nat p / 100"
    and n: "1 \<le> n" "n < 2 ^ 32"
  shows "Math_ceil (fl (c * of_nat n)) = Fin (of_int \<lceil>q * of_nat n\<rceil>)"
proof -
  define N :: rat where "N = of_nat n"
  define x where "x = c * N"
  define t where "t = q * N"
  define k where "k = \<lceil>t\<rceil>"
  have N: "1 \<le> N" "N < 2 ^ 32"
    using n by (simp_all add: N_def)
  have "1 / 2 * 1 \<le> c * N"
    using c(1) N(1) by (intro mult_mono) simp_all
  then have x1: "1 / 2 \<le> x"
    by (simp add: x_def)
  have "c * N \<le> 1 * N"
    using c(2) N(1) by (intro mult_right_mono) simp_all
  with N(2) have x2: "x < 2 ^ 53"
    by (simp add: x_def)
  from x1 x2 obtain s where "fl x = Fin (of_int (rne (x * 2 ^ s)) / 2 ^ s)"
    by (rule fl_normal)
  then obtain y where y: "fl x = Fin y"
    by blast
  have k: "of_int k - 1 < t" "t \<le> of_int k"
    unfolding k_def by linarith+
  have "(c - q) * N < c / 2 ^ 54 * N"
    using up N(1) by (intro mult_strict_right_mono) simp_all
  then have "x - t < x / 2 ^ 54"
    by (simp add: x_def t_def left_diff_distrib)
  with k(2) have "x - of_int k < x / 2 ^ 54"
    by linarith
  with x1 x2 y have upper: "y \<le> of_int k"
    by (rule fl_le_int)
  have "(q - (c - c / 2 ^ 53)) * N < 1 / (100 * 2 ^ 32) * N"
    using low N(1) by (intro mult_strict_right_mono) simp_all
  moreover have "1 / (100 * 2 ^ 32) * N < 1 / (100 * 2 ^ 32) * 2 ^ 32"
    using N(2) by (intro mult_strict_left_mono) simp_all
  ultimately have "(q - (c - c / 2 ^ 53)) * N < 1 / 100"
    by simp
  then have d: "t - (x - x / 2 ^ 53) < 1 / 100"
    by (simp add: x_def t_def left_diff_distrib)
  have t: "t = of_int (int (p * n)) / 100"
    by (simp add: t_def q N_def)
  with k(1) have "of_int (100 * (k - 1)) < (of_int (int (p * n)) :: rat)"
    by simp
  then have "100 * (k - 1) < int (p * n)"
    by (simp only: of_int_less_iff)
  then have "100 * (k - 1) + 1 \<le> int (p * n)"
    by simp
  then have "(of_int (100 * (k - 1) + 1) :: rat) \<le> of_int (int (p * n))"
    by (simp only: of_int_le_iff)
  then have "of_int k - 1 + 1 / 100 \<le> t"
    by (simp add: t)
  with d have "of_int k - 1 < x - x / 2 ^ 53"
    by linarith
  moreover from x1 x2 y have "x - x / 2 ^ 53 \<le> y"
    by (rule fl_lower_bound)
  ultimately have "of_int k - 1 < y"
    by linarith
  with upper have "\<lceil>y\<rceil> = k"
    by (intro ceiling_unique) simp_all
  then show ?thesis
    using y by (simp add: x_def N_def k_def t_def)
qed

lemma js_nat_exact: "n \<le> 2 ^ 53 \<Longrightarrow> js_nat n = Fin (of_nat n)"
  by (simp add: js_nat_def fl_of_nat)

lemma js_int_exact: "\<bar>i\<bar> \<le> 2 ^ 53 \<Longrightarrow> js_int i = Fin (of_int i)"
  by (simp add: js_int_def fl_of_int)

lemma percent_constants:
  "js_div (Fin 50) (Fin 100) = Fin (1 / 2)"
  "js_div (Fin 90) (Fin 100) = Fin (8106479329266893 / 9007199254740992)"
  "js_div (Fin 95) (Fin 100) = Fin (4278419646001971 / 4503599627370496)"
  "js_div (Fin 99) (Fin 100) = Fin (4458563631096791 / 4503599627370496)"
  by (simp_all add: fl_eval)

lemma percentile_ceil:
  assumes "p \<in> {50, 90, 95, 99}" and "1 \<le> n" and "n < 2 ^ 32"
  shows "Math_ceil (js_mul (js_div (Fin (of_nat p)) (Fin 100)) (js_nat n)) =
    Fin (of_int \<lceil>of_nat p / 100 * of_nat n :: rat\<rceil>)"
proof -
  have n: "js_nat n = Fin (of_nat n)"
    using assms(3) by (intro js_nat_exact) simp
  from assms(1) consider "p = 50" | "p = 90" | "p = 95" | "p = 99"
    by blast
  then show ?thesis
  proof cases
    case 1
    have "Math_ceil (fl (1 / 2 * of_nat n)) = Fin (of_int \<lceil>of_nat p / 100 * of_nat n :: rat\<rceil>)"
      using assms(2,3) by (intro ceil_fl_scaled [where p = p]) (simp_all add: 1)
    then show ?thesis
      by (simp add: 1 n percent_constants del: js_div.simps)
  next
    case 2
    have "Math_ceil (fl (8106479329266893 / 9007199254740992 * of_nat n)) =
        Fin (of_int \<lceil>of_nat p / 100 * of_nat n :: rat\<rceil>)"
      using assms(2,3) by (intro ceil_fl_scaled [where p = p]) (simp_all add: 2)
    then show ?thesis
      by (simp add: 2 n percent_constants del: js_div.simps)
  next
    case 3
    have "Math_ceil (fl (4278419646001971 / 4503599627370496 * of_nat n)) =
        Fin (of_int \<lceil>of_nat p / 100 * of_nat n :: rat\<rceil>)"
      using assms(2,3) by (intro ceil_fl_scaled [where p = p]) (simp_all add: 3)
    then show ?thesis
      by (simp add: 3 n percent_constants del: js_div.simps)
  next
    case 4
    have "Math_ceil (fl (4458563631096791 / 4503599627370496 * of_nat n)) =
        Fin (of_int \<lceil>of_nat p / 100 * of_nat n :: rat\<rceil>)"
      using assms(2,3) by (intro ceil_fl_scaled [where p = p]) (simp_all add: 4)
    then show ?thesis
      by (simp add: 4 n percent_constants del: js_div.simps)
  qed
qed

section \<open>Sorting the durations\<close>

lemma abs_le_sum_abs: "d \<in> set ds \<Longrightarrow> \<bar>d\<bar> \<le> sum_list (map abs ds)" for d :: int
proof (induction ds)
  case Nil
  then show ?case by simp
next
  case (Cons a ds)
  have "0 \<le> sum_list (map abs ds)"
    by (rule sum_list_nonneg) auto
  with Cons show ?case
    by auto
qed

lemma safe_durations_bound: "safe_durations ds \<Longrightarrow> \<forall>d \<in> set ds. \<bar>d\<bar> \<le> 2 ^ 52"
proof
  fix d
  assume "safe_durations ds" and "d \<in> set ds"
  with abs_le_sum_abs [of d ds] show "\<bar>d\<bar> \<le> 2 ^ 52"
    by (simp add: safe_durations_def)
qed

lemma compare_durations:
  assumes "\<bar>a\<bar> \<le> 2 ^ 52" and "\<bar>b\<bar> \<le> 2 ^ 52"
  shows "js_sub (js_int a) (js_int b) = Fin (of_int (a - b))"
proof -
  have "js_int a = Fin (of_int a)" "js_int b = Fin (of_int b)"
    using assms by (simp_all add: js_int_exact)
  moreover have "fl (of_int (a - b)) = Fin (of_int (a - b))"
    using assms by (intro fl_of_int) simp
  ultimately show ?thesis
    by (simp add: js_sub_def)
qed

lemma insert_by_insort:
  assumes "\<bar>a\<bar> \<le> 2 ^ 52" and "\<forall>b \<in> set bs. \<bar>b\<bar> \<le> 2 ^ 52"
  shows "insert_by (\<lambda>a b. js_sub (js_int a) (js_int b)) a bs = insort a bs"
  using assms by (induction bs) (auto simp add: compare_durations)

lemma sort_by_sort:
  assumes "\<forall>d \<in> set ds. \<bar>d\<bar> \<le> 2 ^ 52"
  shows "sort_by (\<lambda>a b. js_sub (js_int a) (js_int b)) ds = sort ds"
  using assms
proof (induction ds)
  case Nil
  then show ?case by (simp add: sort_by_def)
next
  case (Cons d ds)
  then have "sort_by (\<lambda>a b. js_sub (js_int a) (js_int b)) ds = sort ds"
    by simp
  moreover have "insert_by (\<lambda>a b. js_sub (js_int a) (js_int b)) d (sort ds) = insort d (sort ds)"
    using Cons.prems by (intro insert_by_insort) simp_all
  ultimately show ?case
    by (simp add: sort_by_def)
qed

lemma length_insert_by [simp]: "length (insert_by c a bs) = Suc (length bs)"
  by (induction bs) simp_all

lemma length_sort_by [simp]: "length (sort_by c xs) = length xs"
  by (induction xs) (simp_all add: sort_by_def)

section \<open>calculatePercentile\<close>

lemma calculatePercentile_eq:
  "calculatePercentile h arr percentile =
     (array_get
        (h\<lparr> fresh := Suc (fresh h),
            arrays := (arrays h)(fresh h := sort_by (\<lambda>a b. js_sub (js_int a) (js_int b))
                                               (arrays h arr)) \<rparr>)
        (fresh h)
        (js_sub (Math_ceil (js_mul (js_div percentile (Fin 100))
                                   (js_nat (length (arrays h arr))))) (Fin 1)),
      h\<lparr> fresh := Suc (fresh h),
          arrays := (arrays h)(fresh h := sort_by (\<lambda>a b. js_sub (js_int a) (js_int b))
                                             (arrays h arr)) \<rparr>)"
  by (simp add: calculatePercentile_def slice_def alloc_def array_sort_def Let_def)

lemma calculatePercentile_result:
  assumes "safe_durations (arrays h arr)"
  shows "fst (calculatePercentile h arr percentile) =
     (case js_sub (Math_ceil (js_mul (js_div percentile (Fin 100))
                                     (js_nat (length (arrays h arr))))) (Fin 1) of
        Fin i \<Rightarrow>
          if of_int \<lfloor>i\<rfloor> = i \<and> 0 \<le> i \<and> i < of_nat (length (arrays h arr))
          then Some (sort (arrays h arr) ! nat \<lfloor>i\<rfloor>) else None
      | _ \<Rightarrow> None)"
proof -
  have "sort_by (\<lambda>a b. js_sub (js_int a) (js_int b)) (arrays h arr) = sort (arrays h arr)"
    using assms by (intro sort_by_sort safe_durations_bound)
  then show ?thesis
    by (cases "js_sub (Math_ceil (js_mul (js_div percentile (Fin 100))
                                         (js_nat (length (arrays h arr))))) (Fin 1)")
       (simp_all add: calculatePercentile_eq array_get_def)
qed

lemma nearest_rank_index:
  assumes "p \<in> {50, 90, 95, 99}" and "1 \<le> n"
  shows "1 \<le> \<lceil>of_nat p / 100 * of_nat n :: rat\<rceil>"
    and "\<lceil>of_nat p / 100 * of_nat n :: rat\<rceil> \<le> int n"
proof -
  have p: "0 < (of_nat p :: rat) / 100" "(of_nat p :: rat) / 100 \<le> 1"
    using assms(1) by auto
  have n: "0 < (of_nat n :: rat)"
    using assms(2) by simp
  from p(1) n have "0 < of_nat p / 100 * (of_nat n :: rat)"
    by (rule mult_pos_pos)
  then have "0 < \<lceil>of_nat p / 100 * of_nat n :: rat\<rceil>"
    by (simp only: zero_less_ceiling)
  then show "1 \<le> \<lceil>of_nat p / 100 * of_nat n :: rat\<rceil>"
    by simp
  have "of_nat p / 100 * (of_nat n :: rat) \<le> 1 * of_nat n"
    using p(2) n by (intro mult_right_mono) simp_all
  then have "of_nat p / 100 * (of_nat n :: rat) \<le> of_int (int n)"
    by simp
  then show "\<lceil>of_nat p / 100 * of_nat n :: rat\<rceil> \<le> int n"
    by (simp only: ceiling_le_iff)
qed

lemma calculatePercentile_nearest_rank:
  assumes "ds = arrays h arr" and "ds \<noteq> []" and "safe_durations ds"
    and "p \<in> {50, 90, 95, 99}"
  shows "fst (calculatePercentile h arr (Fin (of_nat p))) = nearest_rank p ds \<and>
    nearest_rank p ds =
      Some (sort ds ! (nat \<lceil>of_nat p / 100 * of_nat (length ds) :: rat\<rceil> - 1)) \<and>
    nat \<lceil>of_nat p / 100 * of_nat (length ds) :: rat\<rceil> - 1 < length ds"
proof -
  define n where "n = length ds"
  define k where "k = \<lceil>of_nat p / 100 * of_nat n :: rat\<rceil>"
  have n: "1 \<le> n" "n < 2 ^ 32"
    using assms(2,3) by (simp_all add: n_def safe_durations_def Suc_leI)
  have k: "1 \<le> k" "k \<le> int n"
    unfolding k_def using assms(4) n(1) by (rule nearest_rank_index)+
  have "Math_ceil (js_mul (js_div (Fin (of_nat p)) (Fin 100)) (js_nat n)) = Fin (of_int k)"
    unfolding k_def using assms(4) n by (rule percentile_ceil)
  moreover have "fl (of_int (k - 1)) = Fin (of_int (k - 1))"
    using k n(2) by (intro fl_of_int) simp
  ultimately have index:
    "js_sub (Math_ceil (js_mul (js_div (Fin (of_nat p)) (Fin 100)) (js_nat n))) (Fin 1) =
      Fin (of_int (k - 1))"
    by (simp add: js_sub_def)
  have "fst (calculatePercentile h arr (Fin (of_nat p))) =
      (case js_sub (Math_ceil (js_mul (js_div (Fin (of_nat p)) (Fin 100)) (js_nat n))) (Fin 1) of
         Fin i \<Rightarrow>
           if of_int \<lfloor>i\<rfloor> = i \<and> 0 \<le> i \<and> i < of_nat n
           then Some (sort ds ! nat \<lfloor>i\<rfloor>) else None
       | _ \<Rightarrow> None)"
    unfolding n_def assms(1) using assms(3) [unfolded assms(1)]
    by (rule calculatePercentile_result)
  also have "\<dots> = Some (sort ds ! nat (k - 1))"
    unfolding index using k by simp
  finally have "fst (calculatePercentile h arr (Fin (of_nat p))) = Some (sort ds ! nat (k - 1))" .
  moreover have "nearest_rank p ds = Some (sort ds ! nat (k - 1))"
    unfolding nearest_rank_def n_def [symmetric] k_def [symmetric] Let_def using k by simp
  moreover have "nat (k - 1) = nat k - 1" "nat k - 1 < n"
    using k by simp_all
  ultimately show ?thesis
    unfolding n_def [symmetric] k_def [symmetric] by simp
qed

text \<open>
  C6: for a non-empty array of durations and \<open>p \<in> {50, 90, 95, 99}\<close>, the value that
  \<open>calculatePercentile\<close> computes in binary64 arithmetic is the nearest-rank percentile: the
  element of the ascending sort at the 0-based index \<open>\<lceil>p / 100 \<times> n\<rceil> - 1\<close>, an index within
  the array; no interpolation and no special case.
\<close>

theorem C6_nearest_rank:
  assumes "ds = arrays h arr" and "ds \<noteq> []" and "safe_durations ds"
    and "p \<in> {50, 90, 95, 99}"
  shows "fst (calculatePercentile h arr (Fin (of_nat p))) = nearest_rank p ds \<and>
    nearest_rank p ds =
      Some (sort ds ! (nat \<lceil>of_nat p / 100 * of_nat (length ds) :: rat\<rceil> - 1)) \<and>
    nat \<lceil>of_nat p / 100 * of_nat (length ds) :: rat\<rceil> - 1 < length ds"
  using assms by (rule calculatePercentile_nearest_rank)

theorem C6_nearest_rank_witness:
  "[30, 10, 20, 40] = arrays four_durations 0 \<and> [30, 10, 20, 40] \<noteq> ([] :: int list) \<and>
   safe_durations [30, 10, 20, 40] \<and> (90 :: nat) \<in> {50, 90, 95, 99} \<and>
   fst (calculatePercentile four_durations 0 (Fin 90)) = Some 40 \<and>
   nearest_rank 90 [30, 10, 20, 40] = Some 40"
proof -
  have a: "[30, 10, 20, 40] = arrays four_durations 0"
    by (simp add: four_durations_def)
  have b: "[30, 10, 20, 40] \<noteq> ([] :: int list)"
    by simp
  have c: "safe_durations [30, 10, 20, 40]"
    by (simp add: safe_durations_def)
  have d: "(90 :: nat) \<in> {50, 90, 95, 99}"
    by simp
  have e: "nat \<lceil>of_nat 90 / 100 * of_nat (length [30, 10, 20, 40 :: int]) :: rat\<rceil> - 1 = 3"
    by (simp add: ceiling_rat_numeral)
  from C6_nearest_rank [OF a b c d] c show ?thesis
    unfolding e a [symmetric] by (simp add: four_durations_def)
qed

section \<open>The store\<close>

lemma calculatePercentile_store:
  "fresh (snd (calculatePercentile h arr percentile)) = Suc (fresh h)"
  "b \<noteq> fresh h \<Longrightarrow> arrays (snd (calculatePercentile h arr percentile)) b = arrays h b"
  by (simp_all add: calculatePercentile_eq)

lemma calculatePercentile_cong:
  "arrays h1 arr = arrays h2 arr \<Longrightarrow>
   fst (calculatePercentile h1 arr percentile) = fst (calculatePercentile h2 arr percentile)"
  by (cases "js_sub (Math_ceil (js_mul (js_div percentile (Fin 100))
                                       (js_nat (length (arrays h2 arr))))) (Fin 1)")
     (simp_all add: calculatePercentile_eq array_get_def)

lemma percentiles_frame:
  "arr < fresh h \<Longrightarrow>
   fresh h \<le> fresh (snd (percentiles h arr ps)) \<and>
   (\<forall>b < fresh h. arrays (snd (percentiles h arr ps)) b = arrays h b) \<and>
   fst (percentiles h arr ps) = map (\<lambda>p. fst (calculatePercentile h arr p)) ps"
proof (induction ps arbitrary: h)
  case Nil
  then show ?case by simp
next
  case (Cons p ps)
  define h' where "h' = snd (calculatePercentile h arr p)"
  have f: "fresh h' = Suc (fresh h)" and a: "\<forall>b < fresh h. arrays h' b = arrays h b"
    by (simp_all add: h'_def calculatePercentile_store)
  from Cons.prems f have "arr < fresh h'"
    by simp
  then have IH: "fresh h' \<le> fresh (snd (percentiles h' arr ps))"
    "\<forall>b < fresh h'. arrays (snd (percentiles h' arr ps)) b = arrays h' b"
    "fst (percentiles h' arr ps) = map (\<lambda>p. fst (calculatePercentile h' arr p)) ps"
    using Cons.IH by blast+
  have same: "arrays h' arr = arrays h arr"
    using a Cons.prems by simp
  have "map (\<lambda>p. fst (calculatePercentile h' arr p)) ps =
      map (\<lambda>p. fst (calculatePercentile h arr p)) ps"
    using calculatePercentile_cong [OF same] by simp
  with IH f a show ?case
    by (simp add: split_def h'_def [symmetric])
qed

section \<open>Statistics\<close>

lemma sum_durations_exact:
  "\<bar>s\<bar> + sum_list (map abs ds) \<le> 2 ^ 53 \<Longrightarrow>
   foldl (\<lambda>a b. js_add a (js_int b)) (Fin (of_int s)) ds = Fin (of_int (s + sum_list ds))"
proof (induction ds arbitrary: s)
  case Nil
  then show ?case by simp
next
  case (Cons d ds)
  have nn: "0 \<le> sum_list (map abs ds)"
    by (rule sum_list_nonneg) auto
  with Cons.prems have "\<bar>d\<bar> \<le> 2 ^ 53" "\<bar>s + d\<bar> \<le> 2 ^ 53"
    by simp_all
  then have "js_add (Fin (of_int s)) (js_int d) = Fin (of_int (s + d))"
    using fl_of_int [of "s + d"] by (simp add: js_int_exact)
  moreover have "\<bar>s + d\<bar> + sum_list (map abs ds) \<le> 2 ^ 53"
    using Cons.prems by simp
  ultimately show ?case
    using Cons.IH [of "s + d"] by (simp add: add.assoc)
qed

lemma js_min2_int: "js_min2 (Fin (of_int a)) (Fin (of_int b)) = Fin (of_int (min a b))"
  by (simp add: js_min2_def min_def)

lemma js_max2_int: "js_max2 (Fin (of_int a)) (Fin (of_int b)) = Fin (of_int (max a b))"
  by (simp add: js_max2_def max_def)

lemma foldl_min_exact:
  "\<forall>d \<in> set ds. \<bar>d\<bar> \<le> 2 ^ 53 \<Longrightarrow>
   foldl js_min2 (Fin (of_int m)) (map js_int ds) = Fin (of_int (Min (insert m (set ds))))"
proof (induction ds arbitrary: m)
  case Nil
  then show ?case by simp
next
  case (Cons d ds)
  then have "foldl js_min2 (Fin (of_int (min m d))) (map js_int ds) =
      Fin (of_int (Min (insert (min m d) (set ds))))"
    by simp
  moreover have "Min (insert (min m d) (set ds)) = Min (insert m (insert d (set ds)))"
    by (cases "set ds = {}") (simp_all add: min.assoc)
  ultimately show ?case
    using Cons.prems by (simp add: js_int_exact js_min2_int)
qed

lemma foldl_max_exact:
  "\<forall>d \<in> set ds. \<bar>d\<bar> \<le> 2 ^ 53 \<Longrightarrow>
   foldl js_max2 (Fin (of_int m)) (map js_int ds) = Fin (of_int (Max (insert m (set ds))))"
proof (induction ds arbitrary: m)
  case Nil
  then show ?case by simp
next
  case (Cons d ds)
  then have "foldl js_max2 (Fin (of_int (max m d))) (map js_int ds) =
      Fin (of_int (Max (insert (max m d) (set ds))))"
    by simp
  moreover have "Max (insert (max m d) (set ds)) = Max (insert m (insert d (set ds)))"
    by (cases "set ds = {}") (simp_all add: max.assoc)
  ultimately show ?case
    using Cons.prems by (simp add: js_int_exact js_max2_int)
qed

lemma Math_min_exact:
  assumes "\<forall>d \<in> set ds. \<bar>d\<bar> \<le> 2 ^ 53"
  shows "Math_min (map js_int ds) = (if ds = [] then PosInf else Fin (of_int (Min (set ds))))"
proof (cases ds)
  case Nil
  then show ?thesis by (simp add: Math_min_def)
next
  case (Cons d ds')
  with assms have "js_min2 PosInf (js_int d) = Fin (of_int d)"
    by (simp add: js_int_exact js_min2_def)
  with assms Cons foldl_min_exact [of ds' d] show ?thesis
    by (simp add: Math_min_def)
qed

lemma Math_max_exact:
  assumes "\<forall>d \<in> set ds. \<bar>d\<bar> \<le> 2 ^ 53"
  shows "Math_max (map js_int ds) = (if ds = [] then NegInf else Fin (of_int (Max (set ds))))"
proof (cases ds)
  case Nil
  then show ?thesis by (simp add: Math_max_def)
next
  case (Cons d ds')
  with assms have "js_max2 NegInf (js_int d) = Fin (of_int d)"
    by (simp add: js_int_exact js_max2_def)
  with assms Cons foldl_max_exact [of ds' d] show ?thesis
    by (simp add: Math_max_def)
qed

lemma safe_durations_53: "safe_durations ds \<Longrightarrow> \<forall>d \<in> set ds. \<bar>d\<bar> \<le> 2 ^ 53"
proof
  fix d
  assume "safe_durations ds" and "d \<in> set ds"
  with safe_durations_bound [of ds] have "\<bar>d\<bar> \<le> 2 ^ 52"
    by blast
  then show "\<bar>d\<bar> \<le> 2 ^ 53"
    by simp
qed

text \<open>The statistics are computed with four percentile computations in sequence.\<close>

lemma load_test_statistics_percentiles:
  "load_test_statistics h results =
    (let ds = map duration (all_calls results);
         (p, h') = percentiles (snd (alloc h ds)) (fresh h) [Fin 50, Fin 90, Fin 95, Fin 99]
     in (\<lparr> totalQueries = length ds,
           successfulQueries = length (filter success (all_calls results)),
           failedQueries = int (length ds) - int (length (filter success (all_calls results))),
           successRate = js_mul (js_div (js_nat (length (filter success (all_calls results))))
                                        (js_nat (length ds))) (Fin 100),
           averageDuration = js_div (foldl (\<lambda>a b. js_add a (js_int b)) (Fin 0) ds)
                                    (js_nat (length ds)),
           minDuration = Math_min (map js_int ds),
           maxDuration = Math_max (map js_int ds),
           p50Duration = p ! 0, p90Duration = p ! 1, p95Duration = p ! 2,
           p99Duration = p ! 3 \<rparr>, h'))"
  unfolding load_test_statistics_def all_calls_def [symmetric]
  by (simp add: split_def Let_def alloc_def)

lemma alloc_store:
  "fst (alloc h xs) = fresh h"
  "arrays (snd (alloc h xs)) (fresh h) = xs"
  "fresh (snd (alloc h xs)) = Suc (fresh h)"
  "b \<noteq> fresh h \<Longrightarrow> arrays (snd (alloc h xs)) b = arrays h b"
  by (simp_all add: alloc_def)

lemma load_test_statistics_fields:
  "fst (load_test_statistics h results) =
    \<lparr> totalQueries = length (all_calls results),
      successfulQueries = length (filter success (all_calls results)),
      failedQueries = int (length (all_calls results)) -
                      int (length (filter success (all_calls results))),
      successRate = js_mul (js_div (js_nat (length (filter success (all_calls results))))
                                   (js_nat (length (all_calls results)))) (Fin 100),
      averageDuration =
        js_div (foldl (\<lambda>a b. js_add a (js_int b)) (Fin 0) (map duration (all_calls results)))
               (js_nat (length (all_calls results))),
      minDuration = Math_min (map js_int (map duration (all_calls results))),
      maxDuration = Math_max (map js_int (map duration (all_calls results))),
      p50Duration = fst (calculatePercentile
        (snd (alloc h (map duration (all_calls results)))) (fresh h) (Fin 50)),
      p90Duration = fst (calculatePercentile
        (snd (alloc h (map duration (all_calls results)))) (fresh h) (Fin 90)),
      p95Duration = fst (calculatePercentile
        (snd (alloc h (map duration (all_calls results)))) (fresh h) (Fin 95)),
      p99Duration = fst (calculatePercentile
        (snd (alloc h (map duration (all_calls results)))) (fresh h) (Fin 99)) \<rparr>"
proof -
  have "fresh h < fresh (snd (alloc h (map duration (all_calls results))))"
    by (simp add: alloc_store)
  from percentiles_frame [OF this, of "[Fin 50, Fin 90, Fin 95, Fin 99]"]
  have "fst (percentiles (snd (alloc h (map duration (all_calls results)))) (fresh h)
          [Fin 50, Fin 90, Fin 95, Fin 99]) =
      map (\<lambda>p. fst (calculatePercentile
        (snd (alloc h (map duration (all_calls results)))) (fresh h) p))
        [Fin 50, Fin 90, Fin 95, Fin 99]"
    by blast
  then show ?thesis
    by (simp add: load_test_statistics_percentiles Let_def split_def del: percentiles.simps)
qed

text \<open>With safe durations the sum, the minimum and the maximum are exact.\<close>

lemma load_test_statistics_safe:
  assumes "ds = map duration (all_calls results)" and "safe_durations ds"
  shows "averageDuration (fst (load_test_statistics h results)) =
      js_div (Fin (of_int (sum_list ds))) (js_nat (length ds))"
    and "minDuration (fst (load_test_statistics h results)) =
      (if ds = [] then PosInf else Fin (of_int (Min (set ds))))"
    and "maxDuration (fst (load_test_statistics h results)) =
      (if ds = [] then NegInf else Fin (of_int (Max (set ds))))"
proof -
  have s: "\<bar>0 :: int\<bar> + sum_list (map abs ds) \<le> 2 ^ 53"
    using assms(2) by (simp add: safe_durations_def)
  have sum: "foldl (\<lambda>a b. js_add a (js_int b)) (Fin 0) ds = Fin (of_int (sum_list ds))"
    using sum_durations_exact [OF s] by simp
  have b: "\<forall>d \<in> set ds. \<bar>d\<bar> \<le> 2 ^ 53"
    using assms(2) by (rule safe_durations_53)
  have l: "length (all_calls results) = length ds"
    by (simp add: assms(1))
  show "averageDuration (fst (load_test_statistics h results)) =
      js_div (Fin (of_int (sum_list ds))) (js_nat (length ds))"
    by (simp add: load_test_statistics_fields assms(1) [symmetric] sum l)
  show "minDuration (fst (load_test_statistics h results)) =
      (if ds = [] then PosInf else Fin (of_int (Min (set ds))))"
    by (simp only: load_test_statistics_fields assms(1) [symmetric] Math_min_exact [OF b]
          statistics.simps)
  show "maxDuration (fst (load_test_statistics h results)) =
      (if ds = [] then NegInf else Fin (of_int (Max (set ds))))"
    by (simp only: load_test_statistics_fields assms(1) [symmetric] Math_max_exact [OF b]
          statistics.simps)
qed

section \<open>A run in which every call fails\<close>

lemma fl_small: "fl 1 = Fin 1" "fl 5 = Fin 5"
  by (simp_all add: fl_eval)

lemma run_query_failing:
  "run_query failing_world testType q w =
     (\<lparr> result_query = q, success = False, duration = 5, responseSize = None, hits = None,
        took = None, error = Some ''timeout'' \<rparr>, w + 5)"
  by (simp add: run_query_def call_service_def failing_world_def)

lemma failing_run:
  "run_iterations failing_world ''search'' [1] 1 0 [] 0 =
     ([\<lparr> iteration = 1,
         queries = [\<lparr> result_query = 1, success = False, duration = 5, responseSize = None,
                      hits = None, took = None, error = Some ''timeout'' \<rparr>] \<rparr>], 5)"
  by (simp add: run_iterations.simps run_query_failing)

lemma five_percentile:
  assumes "p \<in> {50, 90, 95, 99}"
  shows "fst (calculatePercentile (snd (alloc empty_store [5])) (fresh empty_store)
           (Fin (of_nat p))) = Some 5"
proof -
  have a: "[5] = arrays (snd (alloc empty_store [5])) (fresh empty_store)"
    by (simp add: alloc_store)
  have s: "safe_durations [5]"
    by (simp add: safe_durations_def)
  have "nat \<lceil>of_nat p / 100 * of_nat (length [5 :: int]) :: rat\<rceil> - 1 < length [5 :: int]"
    using calculatePercentile_nearest_rank [OF a _ s assms] by simp
  then have "nat \<lceil>of_nat p / 100 * of_nat (length [5 :: int]) :: rat\<rceil> - 1 = 0"
    by simp
  with calculatePercentile_nearest_rank [OF a _ s assms] show ?thesis
    by simp
qed

lemma five_percentiles:
  "fst (calculatePercentile (snd (alloc empty_store [5])) (fresh empty_store) (Fin 50)) = Some 5"
  "fst (calculatePercentile (snd (alloc empty_store [5])) (fresh empty_store) (Fin 90)) = Some 5"
  "fst (calculatePercentile (snd (alloc empty_store [5])) (fresh empty_store) (Fin 95)) = Some 5"
  "fst (calculatePercentile (snd (alloc empty_store [5])) (fresh empty_store) (Fin 99)) = Some 5"
  using five_percentile [of 50] five_percentile [of 90] five_percentile [of 95]
    five_percentile [of 99]
  by simp_all

lemma failing_statistics:
  "fst (load_test_statistics empty_store
      [\<lparr> iteration = 1,
         queries = [\<lparr> result_query = 1 :: nat, success = False, duration = 5,
                      responseSize = None, hits = None, took = None,
                      error = Some ''timeout'' \<rparr>] \<rparr>]) =
      \<lparr> totalQueries = 1, successfulQueries = 0, failedQueries = 1,
        successRate = Fin 0, averageDuration = Fin 5, minDuration = Fin 5,
        maxDuration = Fin 5, p50Duration = Some 5, p90Duration = Some 5,
        p95Duration = Some 5, p99Duration = Some 5 \<rparr>"
  unfolding load_test_statistics_fields
  by (simp add: all_calls_def five_percentiles Math_min_def Math_max_def js_min2_def
        js_max2_def js_nat_def js_int_def fl_small fl_def [of 0])

text \<open>
  C4, as stated, fails: in a run of one query and one iteration whose call fails after 5 ms,
  the success rate is 0, and the mean, the minimum and the maximum are the Number 5,
  computed from the duration of the failed call; none is \<open>NaN\<close> or missing.
\<close>

theorem C4_all_failed_counterexample:
  "fst (load_test failing_world (test_body [1] 1) empty_store 0) =
     Inr \<lparr> results_testType = ''search'', results_iterations = 1, results_concurrent = 5,
           results_totalQueries = 1, results_startTime = 0,
           results_results =
             [\<lparr> iteration = 1,
                queries = [\<lparr> result_query = 1, success = False, duration = 5,
                             responseSize = None, hits = None, took = None,
                             error = Some ''timeout'' \<rparr>] \<rparr>],
           results_endTime = 5,
           results_statistics =
             \<lparr> totalQueries = 1, successfulQueries = 0, failedQueries = 1,
               successRate = Fin 0, averageDuration = Fin 5, minDuration = Fin 5,
               maxDuration = Fin 5, p50Duration = Some 5, p90Duration = Some 5,
               p95Duration = Some 5, p99Duration = Some 5 \<rparr> \<rparr>"
proof -
  have d: "Date_now failing_world = (\<lambda>w. (w, w))"
    by (simp add: failing_world_def)
  show ?thesis
    using failing_run failing_statistics
    by (simp add: load_test_def test_body_def or_default_def Let_def split_def d)
qed

lemma fl_finite:
  assumes "\<bar>x\<bar> \<le> 2 ^ 1023"
  shows "\<exists>y. fl x = Fin y"
proof (cases "x = 0")
  case True
  then show ?thesis
    by (simp add: fl_def)
next
  case False
  define a where "a = \<bar>x\<bar>"
  define e where "e = max (ilog2 a - 52) (- 1074)"
  define E :: rat where "E = 2 powi e"
  have a: "0 < a" "a \<le> 2 ^ 1023"
    using False assms by (simp_all add: a_def)
  have E: "0 < E"
    by (simp add: E_def)
  have "2 powi (ilog2 a) \<le> a"
    using ilog2_bounds [OF a(1)] by simp
  moreover have "(2 :: rat) powi (ilog2 a - 52) = 2 powi (ilog2 a) * 2 powi (- 52)"
    using power_int_add [of "2 :: rat" "ilog2 a" "- 52"] by simp
  moreover have "(2 :: rat) powi (- 52) \<le> 1" "(2 :: rat) powi (- 1074) \<le> 1"
    by (simp_all add: power_int_minus inverse_eq_divide)
  ultimately have "(2 :: rat) powi (ilog2 a - 52) \<le> a" "(2 :: rat) powi (- 1074) \<le> 1"
    using a(1) by (simp_all add: mult_le_one mult.commute mult_left_le)
  then have Eb: "E \<le> a + 1"
    using a(1) by (cases "ilog2 a - 52 \<le> - 1074") (simp_all add: E_def e_def max_def)
  define Y where "Y = of_int (rne (a / E)) * E"
  have "of_int (rne (a / E)) \<le> a / E + 1 / 2"
    by (rule rne_upper)
  then have "of_int (rne (a / E)) * E \<le> (a / E + 1 / 2) * E"
    using E by (intro mult_right_mono) simp_all
  also have "\<dots> = a + E / 2"
    using E by (simp add: distrib_right)
  finally have "Y \<le> a + E / 2"
    by (simp only: Y_def)
  with Eb a(2) have "Y < 2 ^ 1024"
    by simp
  then have "of_int (rne (a / E)) * E < 2 ^ 1024"
    by (simp only: Y_def)
  then have "\<not> 2 ^ 1024 \<le> of_int (rne (a / E)) * E"
    by simp
  then show ?thesis
    using False unfolding fl_def Let_def a_def [symmetric] e_def [symmetric] E_def [symmetric]
    by simp
qed

lemma js_div_finite:
  assumes "\<bar>a\<bar> \<le> 2 ^ 53" and "0 < n"
  shows "\<exists>m. js_div (Fin (of_int a)) (Fin (of_nat n)) = Fin m"
proof -
  have "\<bar>(of_int a :: rat) / of_nat n\<bar> = \<bar>of_int a\<bar> / of_nat n"
    by simp
  also have "\<dots> \<le> \<bar>of_int a\<bar> / 1"
    using assms(2) by (intro divide_left_mono) simp_all
  also have "\<dots> \<le> 2 ^ 53"
    using assms(1) by (simp flip: of_int_abs add: of_int_le_numeral_power_cancel_iff)
  finally have "\<bar>(of_int a :: rat) / of_nat n\<bar> \<le> 2 ^ 1023"
    by simp
  then have "\<exists>y. fl (of_int a / of_nat n) = Fin y"
    by (rule fl_finite)
  then show ?thesis
    using assms(2) by simp
qed

section \<open>The loops of the load test\<close>

lemma run_query_result_query [simp]: "result_query (fst (run_query env testType q w)) = q"
  by (simp add: run_query_def split_def Let_def split: outcome.splits)

lemma run_queries_acc:
  "run_queries env testType qs acc w =
     (acc @ fst (run_queries env testType qs [] w), snd (run_queries env testType qs [] w))"
proof (induction qs arbitrary: acc w)
  case Nil
  then show ?case by simp
next
  case (Cons q qs)
  show ?case
    using Cons [of "acc @ [fst (run_query env testType q w)]" "snd (run_query env testType q w)"]
      Cons [of "[fst (run_query env testType q w)]" "snd (run_query env testType q w)"]
    by (simp add: split_def Let_def)
qed

lemma run_queries_Cons:
  "run_queries env testType (q # qs) [] w =
     (fst (run_query env testType q w) #
        fst (run_queries env testType qs [] (snd (run_query env testType q w))),
      snd (run_queries env testType qs [] (snd (run_query env testType q w))))"
  using run_queries_acc [of env testType qs "[fst (run_query env testType q w)]"
      "snd (run_query env testType q w)"]
  by (simp add: split_def Let_def)

lemma run_queries_append:
  "run_queries env testType (qs @ qs') [] w =
     (fst (run_queries env testType qs [] w) @
        fst (run_queries env testType qs' [] (snd (run_queries env testType qs [] w))),
      snd (run_queries env testType qs' [] (snd (run_queries env testType qs [] w))))"
proof (induction qs arbitrary: w)
  case Nil
  then show ?case by simp
next
  case (Cons q qs)
  then show ?case
    by (simp only: append_Cons run_queries_Cons fst_conv snd_conv)
qed

lemma run_queries_queries:
  "map result_query (fst (run_queries env testType qs [] w)) = qs"
proof (induction qs arbitrary: w)
  case Nil
  then show ?case by simp
next
  case (Cons q qs)
  then show ?case
    by (simp add: run_queries_Cons del: run_queries.simps)
qed

lemma run_iterations_acc:
  "i \<le> n \<Longrightarrow>
   \<exists>R. run_iterations env testType qs n i acc w =
         (acc @ R, snd (run_queries env testType (concat (replicate (n - i) qs)) [] w)) \<and>
       length R = n - i \<and>
       (\<forall>k < n - i. iteration (R ! k) = i + k + 1 \<and>
                     map result_query (queries (R ! k)) = qs) \<and>
       all_calls R = fst (run_queries env testType (concat (replicate (n - i) qs)) [] w)"
proof (induction env testType qs n i acc w rule: run_iterations.induct)
  case (1 env testType qs n i acc w)
  show ?case
  proof (cases "i < n")
    case False
    with 1(2) have "n - i = 0"
      by simp
    with False show ?thesis
      by (subst run_iterations.simps) (simp add: all_calls_def)
  next
    case True
    define rs where "rs = fst (run_queries env testType qs [] w)"
    define w' where "w' = snd (run_queries env testType qs [] w)"
    define it where "it = \<lparr> iteration = i + 1, queries = rs \<rparr>"
    have rq: "run_queries env testType qs [] w = (rs, w')"
      by (simp add: rs_def w'_def)
    from True have "Suc i \<le> n"
      by simp
    from 1(1) [OF True rq [symmetric] refl this]
    obtain R where R:
      "run_iterations env testType qs n (Suc i) (acc @ [it]) w' =
         ((acc @ [it]) @ R,
          snd (run_queries env testType (concat (replicate (n - Suc i) qs)) [] w'))"
      "length R = n - Suc i"
      "\<forall>k < n - Suc i. iteration (R ! k) = Suc i + k + 1 \<and>
                         map result_query (queries (R ! k)) = qs"
      "all_calls R = fst (run_queries env testType (concat (replicate (n - Suc i) qs)) [] w')"
      unfolding it_def by blast
    have n: "n - i = Suc (n - Suc i)"
      using True by simp
    have rep: "concat (replicate (n - i) qs) = qs @ concat (replicate (n - Suc i) qs)"
      by (simp add: n)
    have a: "run_iterations env testType qs n i acc w =
        (acc @ it # R, snd (run_queries env testType (concat (replicate (n - i) qs)) [] w))"
      using True R(1)
      by (subst run_iterations.simps)
         (simp add: rq it_def rep run_queries_append rs_def [symmetric] w'_def [symmetric])
    have b: "length (it # R) = n - i"
      using R(2) n by simp
    have c: "\<forall>k < n - i. iteration ((it # R) ! k) = i + k + 1 \<and>
        map result_query (queries ((it # R) ! k)) = qs"
    proof (intro allI impI)
      fix k
      assume k: "k < n - i"
      show "iteration ((it # R) ! k) = i + k + 1 \<and>
          map result_query (queries ((it # R) ! k)) = qs"
      proof (cases k)
        case 0
        then show ?thesis
          by (simp add: it_def rs_def run_queries_queries)
      next
        case (Suc j)
        with k n have "j < n - Suc i"
          by simp
        with R(3) Suc show ?thesis
          by simp
      qed
    qed
    have d: "all_calls (it # R) =
        fst (run_queries env testType (concat (replicate (n - i) qs)) [] w)"
      using R(4)
      by (simp add: all_calls_def it_def rep run_queries_append rs_def [symmetric]
            w'_def [symmetric])
    from a b c d show ?thesis
      by blast
  qed
qed

section \<open>Statistics of a run\<close>

text \<open>
  C4, amended: for every benchmark run with at least one attempted call in which every call
  fails, the Statistics report a success rate of 0, no successful and only failed queries,
  and the mean, the minimum and the maximum of the durations of all attempted calls, which
  are finite Numbers (the failed calls have durations); nothing is \<open>NaN\<close> or omitted.
\<close>

theorem C4_all_failed:
  assumes "all_calls results \<noteq> []"
    and "\<forall>r \<in> set (all_calls results). \<not> success r"
    and "ds = map duration (all_calls results)"
    and "safe_durations ds"
    and "st = fst (load_test_statistics h results)"
  shows "totalQueries st = length ds \<and> successfulQueries st = 0 \<and>
    failedQueries st = int (length ds) \<and> successRate st = Fin 0 \<and>
    averageDuration st = fl (of_int (sum_list ds) / of_nat (length ds)) \<and>
    (\<exists>m. averageDuration st = Fin m) \<and>
    minDuration st = Fin (of_int (Min (set ds))) \<and>
    maxDuration st = Fin (of_int (Max (set ds)))"
proof -
  have f: "filter success (all_calls results) = []"
    using assms(2) by (simp add: filter_empty_conv)
  have n: "0 < length ds" "length ds \<le> 2 ^ 53" "ds \<noteq> []"
    using assms(1,3,4) by (simp_all add: safe_durations_def)
  have l: "length (all_calls results) = length ds"
    by (simp add: assms(3))
  have jn: "js_nat (length ds) = Fin (of_nat (length ds))"
    using n(2) by (rule js_nat_exact)
  have "\<bar>sum_list ds\<bar> \<le> sum_list (map abs ds)"
    by (rule sum_list_abs)
  then have s: "\<bar>sum_list ds\<bar> \<le> 2 ^ 53"
    using assms(4) by (simp add: safe_durations_def)
  have avg: "averageDuration st =
      js_div (Fin (of_int (sum_list ds))) (Fin (of_nat (length ds)))"
    using load_test_statistics_safe(1) [OF assms(3,4), of h] by (simp add: assms(5) jn)
  have "successRate st = js_mul (js_div (Fin 0) (Fin (of_nat (length ds)))) (Fin 100)"
    by (simp add: assms(5) load_test_statistics_fields f l jn)
  then have rate: "successRate st = Fin 0"
    using n(1) by (simp add: fl_def)
  have "totalQueries st = length ds" "successfulQueries st = 0"
    "failedQueries st = int (length ds)"
    by (simp_all add: assms(5) load_test_statistics_fields f l)
  moreover have "averageDuration st = fl (of_int (sum_list ds) / of_nat (length ds))"
    using n(1) by (simp add: avg)
  moreover have "\<exists>m. averageDuration st = Fin m"
    unfolding avg using s n(1) by (rule js_div_finite)
  moreover have "minDuration st = Fin (of_int (Min (set ds)))"
    "maxDuration st = Fin (of_int (Max (set ds)))"
    using load_test_statistics_safe(2,3) [OF assms(3,4), of h] n(3)
    by (simp_all add: assms(5))
  ultimately show ?thesis
    using rate by blast
qed

theorem C4_all_failed_witness:
  "all_calls [\<lparr> iteration = 1, queries = [call_3ms] \<rparr>] \<noteq> [] \<and> \<not> success call_3ms \<and>
   safe_durations [3] \<and>
   successRate (fst (load_test_statistics empty_store [\<lparr> iteration = 1, queries = [call_3ms] \<rparr>]))
     = Fin 0 \<and>
   averageDuration (fst (load_test_statistics empty_store
     [\<lparr> iteration = 1, queries = [call_3ms] \<rparr>])) = fl 3 \<and>
   minDuration (fst (load_test_statistics empty_store
     [\<lparr> iteration = 1, queries = [call_3ms] \<rparr>])) = Fin 3"
proof -
  have a: "all_calls [\<lparr> iteration = 1, queries = [call_3ms] \<rparr>] \<noteq> []"
    by (simp add: all_calls_def)
  have b: "\<forall>r \<in> set (all_calls [\<lparr> iteration = 1, queries = [call_3ms] \<rparr>]). \<not> success r"
    by (simp add: all_calls_def call_3ms_def)
  have c: "[3] = map duration (all_calls [\<lparr> iteration = 1, queries = [call_3ms] \<rparr>])"
    by (simp add: all_calls_def call_3ms_def)
  have d: "safe_durations [3]"
    by (simp add: safe_durations_def)
  have e: "\<not> success call_3ms"
    by (simp add: call_3ms_def)
  from C4_all_failed [OF a b c d refl, of empty_store] a d e show ?thesis
    by simp
qed

lemma sort_mset_eq: "mset xs = mset ys \<Longrightarrow> sort xs = sort ys" for xs :: "int list"
  by (rule properties_for_sort) simp_all

lemma safe_durations_mset:
  assumes "mset ds' = mset ds" and "safe_durations ds"
  shows "safe_durations ds'"
proof -
  have "length ds' = length ds"
    using assms(1) by (rule mset_eq_length)
  moreover have "mset (map abs ds') = mset (map abs ds)"
    using assms(1) by simp
  then have "sum_list (map abs ds') = sum_list (map abs ds)"
    by (metis sum_mset_sum_list)
  ultimately show ?thesis
    using assms(2) by (simp add: safe_durations_def)
qed

lemma percentile_mset:
  assumes "mset ds' = mset ds" and "safe_durations ds"
  shows "fst (calculatePercentile (snd (alloc h' ds')) (fresh h') p) =
    fst (calculatePercentile (snd (alloc h ds)) (fresh h) p)"
proof -
  have s': "safe_durations ds'"
    using assms by (rule safe_durations_mset)
  have l: "length ds' = length ds"
    using assms(1) by (rule mset_eq_length)
  have "fst (calculatePercentile (snd (alloc h ds)) (fresh h) p) =
      (case js_sub (Math_ceil (js_mul (js_div p (Fin 100)) (js_nat (length ds)))) (Fin 1) of
         Fin i \<Rightarrow>
           if of_int \<lfloor>i\<rfloor> = i \<and> 0 \<le> i \<and> i < of_nat (length ds)
           then Some (sort ds ! nat \<lfloor>i\<rfloor>) else None
       | _ \<Rightarrow> None)"
    by (rule calculatePercentile_result [of "snd (alloc h ds)" "fresh h" p,
          unfolded alloc_store(2), OF assms(2)])
  moreover have "fst (calculatePercentile (snd (alloc h' ds')) (fresh h') p) =
      (case js_sub (Math_ceil (js_mul (js_div p (Fin 100)) (js_nat (length ds')))) (Fin 1) of
         Fin i \<Rightarrow>
           if of_int \<lfloor>i\<rfloor> = i \<and> 0 \<le> i \<and> i < of_nat (length ds')
           then Some (sort ds' ! nat \<lfloor>i\<rfloor>) else None
       | _ \<Rightarrow> None)"
    by (rule calculatePercentile_result [of "snd (alloc h' ds')" "fresh h'" p,
          unfolded alloc_store(2), OF s'])
  ultimately show ?thesis
    by (simp only: sort_mset_eq [OF assms(1)] l)
qed

text \<open>
  C9: the Statistics of two runs whose calls are permutations of each other are identical
  in every field, for durations that the harness can measure.
\<close>

theorem C9_permutation_invariant:
  assumes "mset (all_calls results') = mset (all_calls results)"
    and "safe_durations (map duration (all_calls results))"
  shows "fst (load_test_statistics h' results') = fst (load_test_statistics h results)"
proof -
  define ds where "ds = map duration (all_calls results)"
  define ds' where "ds' = map duration (all_calls results')"
  have m: "mset ds' = mset ds"
    using assms(1) by (simp add: ds_def ds'_def)
  have s: "safe_durations ds"
    using assms(2) by (simp add: ds_def)
  have s': "safe_durations ds'"
    using m s by (rule safe_durations_mset)
  have l: "length (all_calls results') = length (all_calls results)"
    using assms(1) by (rule mset_eq_length)
  have "mset (filter success (all_calls results')) = mset (filter success (all_calls results))"
    using assms(1) by simp
  then have f: "length (filter success (all_calls results')) =
      length (filter success (all_calls results))"
    by (rule mset_eq_length)
  have sum: "sum_list ds' = sum_list ds"
    using m by (metis sum_mset_sum_list)
  have set: "set ds' = set ds"
    using m by (rule mset_eq_setD)
  have e: "(ds' = []) = (ds = [])"
    using m by (metis mset_zero_iff)
  have b: "\<forall>d \<in> set ds. \<bar>d\<bar> \<le> 2 ^ 53" "\<forall>d \<in> set ds'. \<bar>d\<bar> \<le> 2 ^ 53"
    by (rule safe_durations_53 [OF s], rule safe_durations_53 [OF s'])
  have z: "\<bar>0 :: int\<bar> + sum_list (map abs ds) \<le> 2 ^ 53"
    "\<bar>0 :: int\<bar> + sum_list (map abs ds') \<le> 2 ^ 53"
    using s s' by (simp_all add: safe_durations_def)
  have avg: "foldl (\<lambda>a b. js_add a (js_int b)) (Fin 0) ds' =
      foldl (\<lambda>a b. js_add a (js_int b)) (Fin 0) ds"
    using sum_durations_exact [OF z(1)] sum_durations_exact [OF z(2)] by (simp add: sum)
  have mn: "Math_min (map js_int ds') = Math_min (map js_int ds)"
    by (simp only: Math_min_exact [OF b(1)] Math_min_exact [OF b(2)] set e)
  have mx: "Math_max (map js_int ds') = Math_max (map js_int ds)"
    by (simp only: Math_max_exact [OF b(1)] Math_max_exact [OF b(2)] set e)
  show ?thesis
    unfolding load_test_statistics_fields
    using avg mn mx percentile_mset [OF m s, of h' _ h]
    by (simp add: l f ds_def ds'_def)
qed

theorem C9_permutation_invariant_witness:
  "mset (all_calls [\<lparr> iteration = 1, queries = [call_5ms, call_3ms] \<rparr>]) =
     mset (all_calls [\<lparr> iteration = 1, queries = [call_3ms, call_5ms] \<rparr>]) \<and>
   safe_durations (map duration (all_calls [\<lparr> iteration = 1, queries = [call_3ms, call_5ms] \<rparr>])) \<and>
   fst (load_test_statistics four_durations [\<lparr> iteration = 1, queries = [call_5ms, call_3ms] \<rparr>]) =
   fst (load_test_statistics empty_store [\<lparr> iteration = 1, queries = [call_3ms, call_5ms] \<rparr>])"
proof -
  have a: "mset (all_calls [\<lparr> iteration = 1, queries = [call_5ms, call_3ms] \<rparr>]) =
      mset (all_calls [\<lparr> iteration = 1, queries = [call_3ms, call_5ms] \<rparr>])"
    by (simp add: all_calls_def)
  have b: "safe_durations
      (map duration (all_calls [\<lparr> iteration = 1, queries = [call_3ms, call_5ms] \<rparr>]))"
    by (simp add: all_calls_def safe_durations_def call_3ms_def call_5ms_def)
  from a b have "fst (load_test_statistics four_durations
        [\<lparr> iteration = 1, queries = [call_5ms, call_3ms] \<rparr>]) =
      fst (load_test_statistics empty_store [\<lparr> iteration = 1, queries = [call_3ms, call_5ms] \<rparr>])"
    by (rule C9_permutation_invariant)
  with a b show ?thesis
    by (intro conjI)
qed

section \<open>The benchmark run\<close>

lemma run_query_rejected:
  assumes "call_service env testType q (snd (Date_now env w)) = (Rejected message, w2)"
  shows "run_query env testType q w =
    (\<lparr> result_query = q, success = False,
       duration = fst (Date_now env w2) - fst (Date_now env w),
       responseSize = None, hits = None, took = None, error = Some message \<rparr>,
     snd (Date_now env w2))"
  using assms by (simp add: run_query_def split_def Let_def)

lemma run_query_unreadable:
  assumes "call_service env testType q (snd (Date_now env w)) = (Unreadable message, w2)"
  shows "run_query env testType q w =
    (\<lparr> result_query = q, success = False,
       duration = fst (Date_now env (snd (Date_now env w2))) - fst (Date_now env w),
       responseSize = None, hits = None, took = None, error = Some message \<rparr>,
     snd (Date_now env (snd (Date_now env w2))))"
  using assms by (simp add: run_query_def split_def Let_def)

lemma run_iterations_results:
  "length (fst (run_iterations env testType qs n 0 [] w)) = n \<and>
   (\<forall>k < n. iteration (fst (run_iterations env testType qs n 0 [] w) ! k) = k + 1 \<and>
      map result_query (queries (fst (run_iterations env testType qs n 0 [] w) ! k)) = qs) \<and>
   all_calls (fst (run_iterations env testType qs n 0 [] w)) =
     fst (run_queries env testType (concat (replicate n qs)) [] w) \<and>
   snd (run_iterations env testType qs n 0 [] w) =
     snd (run_queries env testType (concat (replicate n qs)) [] w)"
  using run_iterations_acc [of 0 n env testType qs "[]" w] by auto

text \<open>
  C8: a call that fails, because the operation rejects or because the value it resolves
  with cannot be read, is recorded with its error message and the duration up to the
  failure, without a hit count. The run goes on: its results have one entry per iteration,
  numbered from 1, each with one record per query in the order of the queries, and the
  records of the whole run are those of all the calls made one after the other, whatever
  the outcome of each; in particular the queries after any call are run from the world that
  this call left.
\<close>

theorem C8_failure_does_not_abort:
  "(call_service env testType q (snd (Date_now env w)) = (Rejected message, w2) \<longrightarrow>
      run_query env testType q w =
        (\<lparr> result_query = q, success = False,
           duration = fst (Date_now env w2) - fst (Date_now env w),
           responseSize = None, hits = None, took = None, error = Some message \<rparr>,
         snd (Date_now env w2))) \<and>
   (call_service env testType q (snd (Date_now env w)) = (Unreadable message, w2) \<longrightarrow>
      run_query env testType q w =
        (\<lparr> result_query = q, success = False,
           duration = fst (Date_now env (snd (Date_now env w2))) - fst (Date_now env w),
           responseSize = None, hits = None, took = None, error = Some message \<rparr>,
         snd (Date_now env (snd (Date_now env w2))))) \<and>
   length (fst (run_iterations env testType qs n 0 [] w)) = n \<and>
   (\<forall>k < n. iteration (fst (run_iterations env testType qs n 0 [] w) ! k) = k + 1 \<and>
      map result_query (queries (fst (run_iterations env testType qs n 0 [] w) ! k)) = qs) \<and>
   all_calls (fst (run_iterations env testType qs n 0 [] w)) =
     fst (run_queries env testType (concat (replicate n qs)) [] w) \<and>
   fst (run_queries env testType (before @ q # after) [] w) =
     fst (run_queries env testType before [] w) @
     fst (run_query env testType q (snd (run_queries env testType before [] w))) #
     fst (run_queries env testType after []
       (snd (run_query env testType q (snd (run_queries env testType before [] w)))))"
proof -
  have a: "call_service env testType q (snd (Date_now env w)) = (Rejected message, w2) \<longrightarrow>
      run_query env testType q w =
        (\<lparr> result_query = q, success = False,
           duration = fst (Date_now env w2) - fst (Date_now env w),
           responseSize = None, hits = None, took = None, error = Some message \<rparr>,
         snd (Date_now env w2))"
    by (simp add: run_query_rejected)
  have u: "call_service env testType q (snd (Date_now env w)) = (Unreadable message, w2) \<longrightarrow>
      run_query env testType q w =
        (\<lparr> result_query = q, success = False,
           duration = fst (Date_now env (snd (Date_now env w2))) - fst (Date_now env w),
           responseSize = None, hits = None, took = None, error = Some message \<rparr>,
         snd (Date_now env (snd (Date_now env w2))))"
    by (simp add: run_query_unreadable)
  have b: "fst (run_queries env testType (before @ q # after) [] w) =
     fst (run_queries env testType before [] w) @
     fst (run_query env testType q (snd (run_queries env testType before [] w))) #
     fst (run_queries env testType after []
       (snd (run_query env testType q (snd (run_queries env testType before [] w)))))"
    by (simp only: run_queries_append run_queries_Cons fst_conv snd_conv)
  from a u b run_iterations_results [of env testType qs n w] show ?thesis
    by blast
qed

lemma flaky_run_query:
  "run_query flaky_world ''search'' q w =
     (if q = 2 then
        (\<lparr> result_query = q, success = False, duration = 3, responseSize = None, hits = None,
           took = None, error = Some ''timeout'' \<rparr>, w + 3)
      else if q = 4 then
        (\<lparr> result_query = q, success = False, duration = 1, responseSize = None, hits = None,
           took = None, error = Some ''Cannot read properties of null'' \<rparr>, w + 1)
      else
        (\<lparr> result_query = q, success = True, duration = 5, responseSize = Some 120,
           hits = Some 7, took = Some 2, error = None \<rparr>, w + 5))"
  by (simp add: run_query_def call_service_def flaky_world_def flaky_search_def)

theorem C8_failure_does_not_abort_witness:
  "call_service flaky_world ''search'' 2 (snd (Date_now flaky_world 0)) =
     (Rejected ''timeout'', 3) \<and>
   run_query flaky_world ''search'' 2 0 =
     (\<lparr> result_query = 2, success = False, duration = 3, responseSize = None, hits = None,
        took = None, error = Some ''timeout'' \<rparr>, 3) \<and>
   call_service flaky_world ''search'' 4 (snd (Date_now flaky_world 0)) =
     (Unreadable ''Cannot read properties of null'', 1) \<and>
   run_query flaky_world ''search'' 4 0 =
     (\<lparr> result_query = 4, success = False, duration = 1, responseSize = None, hits = None,
        took = None, error = Some ''Cannot read properties of null'' \<rparr>, 1) \<and>
   length (fst (run_iterations flaky_world ''search'' [1, 2, 3] 2 0 [] 0)) = 2 \<and>
   map (map success) (map queries (fst (run_iterations flaky_world ''search'' [1, 2, 3] 2 0 [] 0)))
     = [[True, False, True], [True, False, True]] \<and>
   map duration (all_calls (fst (run_iterations flaky_world ''search'' [1, 2, 3] 2 0 [] 0))) =
     [5, 3, 5, 5, 3, 5]"
proof -
  have c: "call_service flaky_world ''search'' 2 (snd (Date_now flaky_world 0)) =
      (Rejected ''timeout'', 3)"
    by (simp add: call_service_def flaky_world_def flaky_search_def)
  have c': "call_service flaky_world ''search'' 4 (snd (Date_now flaky_world 0)) =
      (Unreadable ''Cannot read properties of null'', 1)"
    by (simp add: call_service_def flaky_world_def flaky_search_def)
  have d: "Date_now flaky_world = (\<lambda>w. (w, w))"
    by (simp add: flaky_world_def)
  have r: "fst (run_iterations flaky_world ''search'' [1, 2, 3] 2 0 [] 0) =
      [\<lparr> iteration = 1, queries = fst (run_queries flaky_world ''search'' [1, 2, 3] [] 0) \<rparr>,
       \<lparr> iteration = 2, queries = fst (run_queries flaky_world ''search'' [1, 2, 3] [] 13) \<rparr>]"
    by (simp add: run_iterations.simps split_def flaky_run_query)
  from C8_failure_does_not_abort [where env = flaky_world and testType = "''search''"
      and q = 2 and w = 0 and message = "''timeout''" and ?w2.0 = 3 and qs = "[1, 2, 3]"
      and n = 2 and before = "[]" and after = "[]"] c
  have "run_query flaky_world ''search'' 2 0 =
     (\<lparr> result_query = 2, success = False,
        duration = fst (Date_now flaky_world 3) - fst (Date_now flaky_world 0),
        responseSize = None, hits = None, took = None, error = Some ''timeout'' \<rparr>,
      snd (Date_now flaky_world 3))"
    and "length (fst (run_iterations flaky_world ''search'' [1, 2, 3] 2 0 [] 0)) = 2"
    by blast+
  moreover from C8_failure_does_not_abort [where env = flaky_world and testType = "''search''"
      and q = 4 and w = 0 and message = "''Cannot read properties of null''" and ?w2.0 = 1
      and qs = "[]" and n = 0 and before = "[]" and after = "[]"] c'
  have "run_query flaky_world ''search'' 4 0 =
     (\<lparr> result_query = 4, success = False,
        duration = fst (Date_now flaky_world (snd (Date_now flaky_world 1))) -
          fst (Date_now flaky_world 0),
        responseSize = None, hits = None, took = None,
        error = Some ''Cannot read properties of null'' \<rparr>,
      snd (Date_now flaky_world (snd (Date_now flaky_world 1))))"
    by blast
  ultimately show ?thesis
    using c c' r by (simp add: d all_calls_def split_def flaky_run_query)
qed

section \<open>The input of calculatePercentile\<close>

lemma load_test_statistics_store:
  "arrays (snd (load_test_statistics h results)) (fresh h) = map duration (all_calls results) \<and>
   (\<forall>b < fresh h. arrays (snd (load_test_statistics h results)) b = arrays h b)"
proof -
  define ds where "ds = map duration (all_calls results)"
  define h0 where "h0 = snd (alloc h ds)"
  have s: "snd (load_test_statistics h results) =
      snd (percentiles h0 (fresh h) [Fin 50, Fin 90, Fin 95, Fin 99])"
    by (simp add: load_test_statistics_percentiles Let_def split_def h0_def ds_def
          del: percentiles.simps)
  have "fresh h < fresh h0"
    by (simp add: h0_def alloc_store)
  from percentiles_frame [OF this, of "[Fin 50, Fin 90, Fin 95, Fin 99]"]
  have f: "\<forall>b < fresh h0.
      arrays (snd (percentiles h0 (fresh h) [Fin 50, Fin 90, Fin 95, Fin 99])) b = arrays h0 b"
    by blast
  have "fresh h0 = Suc (fresh h)" "arrays h0 (fresh h) = ds"
    "\<forall>b < fresh h. arrays h0 b = arrays h b"
    by (simp_all add: h0_def alloc_store)
  with f show ?thesis
    unfolding s ds_def [symmetric] by simp
qed

lemma run_iterations_numbers:
  "map iteration (fst (run_iterations env testType qs n 0 [] w)) = [1..<Suc n]"
proof (rule nth_equalityI)
  show "length (map iteration (fst (run_iterations env testType qs n 0 [] w))) =
      length [1..<Suc n]"
    using run_iterations_results [of env testType qs n w] by simp
next
  fix k
  assume "k < length (map iteration (fst (run_iterations env testType qs n 0 [] w)))"
  then have k: "k < n"
    using run_iterations_results [of env testType qs n w] by simp
  then have "iteration (fst (run_iterations env testType qs n 0 [] w) ! k) = k + 1"
    using run_iterations_results [of env testType qs n w] by blast
  moreover have "[1..<Suc n] ! k = 1 + k"
    using k by (intro nth_upt) simp
  ultimately show "map iteration (fst (run_iterations env testType qs n 0 [] w)) ! k =
      [1..<Suc n] ! k"
    using k run_iterations_results [of env testType qs n w] by simp
qed

lemma load_test_results:
  assumes "fst (load_test env body h w) = Inr r"
  shows "results_results r =
      fst (run_iterations env (or_default ''search'' (body_testType body))
             (or_default [] (body_queries body)) (or_default 10 (body_iterations body)) 0 []
             (snd (Date_now env w)))"
  using assms by (auto simp add: load_test_def Let_def split_def split: if_splits)

text \<open>
  C10: \<open>calculatePercentile\<close> sorts a copy. After a call, and after any sequence of calls,
  every array that was allocated before holds what it held, the array of the durations
  included, and each call of the sequence returns what it returns on the initial store. So
  it is for the four calls of the handler: the statistics leave the durations in
  \<open>allDurations\<close> in the order of the calls, and the results of the response are those of
  the loop, iteration 1 first.
\<close>

theorem C10_input_not_mutated:
  assumes "arr < fresh h"
  shows "arrays (snd (calculatePercentile h arr percentile)) arr = arrays h arr \<and>
    (\<forall>b < fresh h. arrays (snd (percentiles h arr ps)) b = arrays h b) \<and>
    fst (percentiles h arr ps) = map (\<lambda>p. fst (calculatePercentile h arr p)) ps \<and>
    [p50Duration (fst (load_test_statistics h results)),
     p90Duration (fst (load_test_statistics h results)),
     p95Duration (fst (load_test_statistics h results)),
     p99Duration (fst (load_test_statistics h results))] =
      map (\<lambda>p. fst (calculatePercentile (snd (alloc h (map duration (all_calls results))))
                        (fresh h) p))
        [Fin 50, Fin 90, Fin 95, Fin 99] \<and>
    arrays (snd (load_test_statistics h results)) (fresh h) =
      map duration (all_calls results) \<and>
    (\<forall>b < fresh h. arrays (snd (load_test_statistics h results)) b = arrays h b) \<and>
    (fst (load_test env body h w) = Inr r \<longrightarrow>
       results_results r =
         fst (run_iterations env (or_default ''search'' (body_testType body))
                (or_default [] (body_queries body)) (or_default 10 (body_iterations body)) 0 []
                (snd (Date_now env w))) \<and>
       map iteration (results_results r) = [1..<Suc (or_default 10 (body_iterations body))])"
proof -
  have a: "arrays (snd (calculatePercentile h arr percentile)) arr = arrays h arr"
    using assms by (simp add: calculatePercentile_store)
  have b: "[p50Duration (fst (load_test_statistics h results)),
     p90Duration (fst (load_test_statistics h results)),
     p95Duration (fst (load_test_statistics h results)),
     p99Duration (fst (load_test_statistics h results))] =
      map (\<lambda>p. fst (calculatePercentile (snd (alloc h (map duration (all_calls results))))
                        (fresh h) p))
        [Fin 50, Fin 90, Fin 95, Fin 99]"
    by (simp add: load_test_statistics_fields)
  have c: "fst (load_test env body h w) = Inr r \<longrightarrow>
       results_results r =
         fst (run_iterations env (or_default ''search'' (body_testType body))
                (or_default [] (body_queries body)) (or_default 10 (body_iterations body)) 0 []
                (snd (Date_now env w))) \<and>
       map iteration (results_results r) = [1..<Suc (or_default 10 (body_iterations body))]"
    using load_test_results [of env body h w r] by (simp add: run_iterations_numbers)
  from a b c percentiles_frame [OF assms, of ps] load_test_statistics_store [of h results]
  show ?thesis
    by blast
qed

lemma four_percentile:
  assumes "p \<in> {50, 90, 95, 99}"
  shows "fst (calculatePercentile four_durations 0 (Fin (of_nat p))) =
    Some (sort [30, 10, 20, 40] ! (nat \<lceil>of_nat p / 100 * 4 :: rat\<rceil> - 1))"
proof -
  have a: "[30, 10, 20, 40] = arrays four_durations 0"
    by (simp add: four_durations_def)
  have s: "safe_durations [30, 10, 20, 40]"
    by (simp add: safe_durations_def)
  from calculatePercentile_nearest_rank [OF a _ s assms] show ?thesis
    by simp
qed

theorem C10_input_not_mutated_witness:
  "arrays (snd (percentiles four_durations 0 [Fin 50, Fin 90, Fin 95, Fin 99])) 0 =
     [30, 10, 20, 40] \<and>
   fst (percentiles four_durations 0 [Fin 50, Fin 90, Fin 95, Fin 99]) =
     [Some 20, Some 40, Some 40, Some 40]"
proof -
  have f: "0 < fresh four_durations"
    by (simp add: four_durations_def)
  have p: "fst (calculatePercentile four_durations 0 (Fin 50)) = Some 20"
    "fst (calculatePercentile four_durations 0 (Fin 90)) = Some 40"
    "fst (calculatePercentile four_durations 0 (Fin 95)) = Some 40"
    "fst (calculatePercentile four_durations 0 (Fin 99)) = Some 40"
    using four_percentile [of 50] four_percentile [of 90] four_percentile [of 95]
      four_percentile [of 99]
    by (simp_all add: ceiling_rat_numeral)
  note t = C10_input_not_mutated [OF f, where ps = "[Fin 50, Fin 90, Fin 95, Fin 99]"]
  have "\<forall>b < fresh four_durations.
      arrays (snd (percentiles four_durations 0 [Fin 50, Fin 90, Fin 95, Fin 99])) b =
      arrays four_durations b"
    by (rule t [THEN conjunct2, THEN conjunct1])
  moreover have "fst (percentiles four_durations 0 [Fin 50, Fin 90, Fin 95, Fin 99]) =
      map (\<lambda>p. fst (calculatePercentile four_durations 0 p)) [Fin 50, Fin 90, Fin 95, Fin 99]"
    by (rule t [THEN conjunct2, THEN conjunct2, THEN conjunct1])
  ultimately have "arrays (snd (percentiles four_durations 0 [Fin 50, Fin 90, Fin 95, Fin 99])) 0 =
      arrays four_durations 0"
    and "fst (percentiles four_durations 0 [Fin 50, Fin 90, Fin 95, Fin 99]) =
      map (\<lambda>p. fst (calculatePercentile four_durations 0 p)) [Fin 50, Fin 90, Fin 95, Fin 99]"
    using f by blast+
  with p show ?thesis
    by (simp add: four_durations_def del: percentiles.simps)
qed

end
